theory Spec2Isabelle
  imports Complex_Main
begin

section \<open>Preliminaries: Python values used by the interview-progress graph\<close>

text \<open>
  The development embeds the core of the repository: \<^verbatim>\<open>node_status.py\<close>,
  \<^verbatim>\<open>theme_node.py\<close>, \<^verbatim>\<open>event_node.py\<close>, \<^verbatim>\<open>theme_loader.py\<close> and
  \<^verbatim>\<open>graph_manager.py\<close>.

  Conventions.
  \<^item> A Python \<^verbatim>\<open>dict\<close> is an association list with distinct keys, in insertion order;
    \<open>map_of\<close> is the lookup and \<open>dict_set\<close> is \<^verbatim>\<open>d[k] = v\<close> (an existing key keeps its
    position, a new key goes to the end).
  \<^item> Python's unbounded \<^verbatim>\<open>int\<close> is \<open>int\<close>.
  \<^item> The quotients that \<^verbatim>\<open>get_completion_ratio\<close> computes in floating point are
    computed exactly, in \<open>rat\<close>. For slot maps of fewer than \<open>2^26\<close> entries and
    depths of magnitude below \<open>2^49\<close>, IEEE doubles order and equate these quotients as
    the rationals do.
  \<^item> A \<^verbatim>\<open>datetime\<close> is a clock reading, a natural number; every function that calls
    \<^verbatim>\<open>datetime.now()\<close> takes the reading as its first argument. An ISO string in a
    serialized record is identified with the instant it denotes.
  \<^item> A raised exception is a value of type \<open>error\<close> on the left of a sum.
\<close>

type_synonym datetime = nat

datatype error =
    FileNotFoundError
  | JSONDecodeError
  | OSError
  | KeyError string
  | ValueError string
  | AttributeError

fun dict_set :: "'k \<Rightarrow> 'v \<Rightarrow> ('k \<times> 'v) list \<Rightarrow> ('k \<times> 'v) list" where
  "dict_set k v [] = [(k, v)]"
| "dict_set k v (p # ps) = (if fst p = k then (k, v) # ps else p # dict_set k v ps)"

text \<open>
  The loop of \<^verbatim>\<open>min(xs, key=f)\<close> on a list that is not empty: the first item is the
  candidate, and a later item replaces it only when its key is strictly smaller, so the
  first minimal item wins.
\<close>

fun min_loop :: "('a \<Rightarrow> 'k::linorder) \<Rightarrow> 'a \<Rightarrow> 'a list \<Rightarrow> 'a" where
  "min_loop key best [] = best"
| "min_loop key best (x # xs) = min_loop key (if key x < key best then x else best) xs"

text \<open>What opening and parsing a JSON file gives.\<close>

datatype 'a json_file = Missing | Unreadable | Malformed | Parsed 'a

definition read_json :: "'a json_file \<Rightarrow> error + 'a" where
  "read_json f =
     (case f of
        Missing \<Rightarrow> Inl FileNotFoundError
      | Unreadable \<Rightarrow> Inl OSError
      | Malformed \<Rightarrow> Inl JSONDecodeError
      | Parsed content \<Rightarrow> Inr content)"

section \<open>node\_status.py\<close>

datatype NodeStatus = PENDING | MENTIONED | EXHAUSTED

fun NodeStatus_value :: "NodeStatus \<Rightarrow> string" where
  "NodeStatus_value PENDING = ''pending''"
| "NodeStatus_value MENTIONED = ''mentioned''"
| "NodeStatus_value EXHAUSTED = ''exhausted''"

text \<open>\<^verbatim>\<open>NodeStatus(s)\<close>: the member whose value is \<open>s\<close>, or \<^verbatim>\<open>ValueError\<close>.\<close>

definition NodeStatus_of :: "string \<Rightarrow> error + NodeStatus" where
  "NodeStatus_of s =
     (if s = ''pending'' then Inr PENDING
      else if s = ''mentioned'' then Inr MENTIONED
      else if s = ''exhausted'' then Inr EXHAUSTED
      else Inl (ValueError s))"

datatype Domain =
    LIFE_CHAPTERS
  | KEY_SCENES
  | FUTURE_SCRIPTS
  | CHALLENGES
  | PERSONAL_IDEOLOGY
  | CONTEXT_MANAGEMENT

fun Domain_value :: "Domain \<Rightarrow> string" where
  "Domain_value LIFE_CHAPTERS = ''life_chapters''"
| "Domain_value KEY_SCENES = ''key_scenes''"
| "Domain_value FUTURE_SCRIPTS = ''future_scripts''"
| "Domain_value CHALLENGES = ''challenges''"
| "Domain_value PERSONAL_IDEOLOGY = ''personal_ideology''"
| "Domain_value CONTEXT_MANAGEMENT = ''context_management''"

definition Domain_of :: "string \<Rightarrow> error + Domain" where
  "Domain_of s =
     (if s = ''life_chapters'' then Inr LIFE_CHAPTERS
      else if s = ''key_scenes'' then Inr KEY_SCENES
      else if s = ''future_scripts'' then Inr FUTURE_SCRIPTS
      else if s = ''challenges'' then Inr CHALLENGES
      else if s = ''personal_ideology'' then Inr PERSONAL_IDEOLOGY
      else if s = ''context_management'' then Inr CONTEXT_MANAGEMENT
      else Inl (ValueError s))"

section \<open>theme\_node.py\<close>

text \<open>
  The dataclass \<^verbatim>\<open>ThemeNode\<close>. The field \<open>domain\<close> is optional because
  \<^verbatim>\<open>from_dict\<close> stores \<^verbatim>\<open>None\<close> there when the record has no domain. The opaque
  structured values \<^verbatim>\<open>trigger_logic\<close> and \<^verbatim>\<open>metadata\<close>, which the program only
  stores and copies, are association lists.
\<close>

record ThemeNode =
  theme_id :: string
  domain :: "Domain option"
  title :: string
  description :: string
  seed_questions :: "string list"
  current_question_index :: int
  status :: NodeStatus
  exploration_depth :: int
  slots_filled :: "(string \<times> bool) list"
  extracted_events :: "string list"
  trigger_logic :: "(string \<times> string) list option"
  priority :: int
  depends_on :: "string list"
  created_at :: datetime
  first_mentioned_at :: "datetime option"
  exhausted_at :: "datetime option"
  metadata :: "(string \<times> int) list"

definition mark_mentioned :: "datetime \<Rightarrow> ThemeNode \<Rightarrow> ThemeNode" where
  "mark_mentioned now n =
     (if status n = PENDING
      then n\<lparr>status := MENTIONED, first_mentioned_at := Some now\<rparr>
      else n)"

definition mark_exhausted :: "datetime \<Rightarrow> ThemeNode \<Rightarrow> ThemeNode" where
  "mark_exhausted now n = n\<lparr>status := EXHAUSTED, exhausted_at := Some now\<rparr>"

definition get_completion_ratio :: "ThemeNode \<Rightarrow> rat" where
  "get_completion_ratio n =
     (if slots_filled n = [] then min (of_int (exploration_depth n) / 5) 1
      else
        let filled_count = length (filter (\<lambda>v. v) (map snd (slots_filled n)));
            total_count = length (slots_filled n)
        in if filled_count > 0 then of_nat filled_count / of_nat total_count
           else min (of_int (exploration_depth n) / 5) 1)"

definition is_ready_to_explore ::
  "ThemeNode \<Rightarrow> (string \<times> ThemeNode) list option \<Rightarrow> bool" where
  "is_ready_to_explore n graph_state =
     (if depends_on n = [] then True
      else case graph_state of
        None \<Rightarrow> False
      | Some gs \<Rightarrow>
          list_all (\<lambda>dep_id. case map_of gs dep_id of
                                None \<Rightarrow> False
                              | Some t \<Rightarrow> status t = EXHAUSTED)
                   (depends_on n))"


definition reset_question_index :: "ThemeNode \<Rightarrow> ThemeNode" where
  "reset_question_index n = n\<lparr>current_question_index := 0\<rparr>"

definition has_more_questions :: "ThemeNode \<Rightarrow> bool" where
  "has_more_questions n \<longleftrightarrow> current_question_index n < int (length (seed_questions n))"

definition increment_depth :: "ThemeNode \<Rightarrow> ThemeNode" where
  "increment_depth n = n\<lparr>exploration_depth := min (exploration_depth n + 1) 5\<rparr>"

definition update_slot :: "string \<Rightarrow> bool \<Rightarrow> ThemeNode \<Rightarrow> ThemeNode" where
  "update_slot slot_name filled n =
     n\<lparr>slots_filled := dict_set slot_name filled (slots_filled n)\<rparr>"

definition add_extracted_event :: "string \<Rightarrow> ThemeNode \<Rightarrow> ThemeNode" where
  "add_extracted_event event_id n =
     (if event_id \<notin> set (extracted_events n)
      then n\<lparr>extracted_events := extracted_events n @ [event_id]\<rparr>
      else n)"


subsection \<open>Serialized theme records\<close>

text \<open>
  The dictionary that \<^verbatim>\<open>to_dict\<close> writes and \<^verbatim>\<open>from_dict\<close> reads. There is one
  optional field for every key the program reads or writes on such a dictionary;
  \<open>None\<close> means that the key is absent (or, for the three timestamps and
  \<^verbatim>\<open>trigger_logic\<close>, that its value is \<^verbatim>\<open>None\<close>, which the code does not
  distinguish). The keys \<^verbatim>\<open>extracted_events\<close>, \<^verbatim>\<open>trigger_logic\<close> and
  \<^verbatim>\<open>metadata\<close> are read by \<^verbatim>\<open>from_dict\<close> only; \<^verbatim>\<open>depth_level\<close> is the key that
  \<^verbatim>\<open>update_event_depth\<close> sets on the payload of a graph node.
\<close>

record theme_dict =
  td_theme_id :: "string option"
  td_domain :: "string option"
  td_title :: "string option"
  td_description :: "string option"
  td_seed_questions :: "string list option"
  td_status :: "string option"
  td_exploration_depth :: "int option"
  td_slots_filled :: "(string \<times> bool) list option"
  td_extracted_events_count :: "int option"
  td_priority :: "int option"
  td_depends_on :: "string list option"
  td_completion_ratio :: "rat option"
  td_created_at :: "datetime option"
  td_first_mentioned_at :: "datetime option"
  td_exhausted_at :: "datetime option"
  td_extracted_events :: "string list option"
  td_trigger_logic :: "(string \<times> string) list option"
  td_metadata :: "(string \<times> int) list option"
  td_depth_level :: "int option"

text \<open>\<^verbatim>\<open>data[key]\<close>: the value, or \<^verbatim>\<open>KeyError\<close>.\<close>

definition subscript :: "string \<Rightarrow> 'a option \<Rightarrow> error + 'a" where
  "subscript key v = (case v of None \<Rightarrow> Inl (KeyError key) | Some x \<Rightarrow> Inr x)"

text \<open>\<^verbatim>\<open>data.get(key, default)\<close>.\<close>

definition get_default :: "'a option \<Rightarrow> 'a \<Rightarrow> 'a" where
  "get_default v d = (case v of None \<Rightarrow> d | Some x \<Rightarrow> x)"

text \<open>\<^verbatim>\<open>self.domain.value\<close> raises \<^verbatim>\<open>AttributeError\<close> on a node without a domain.\<close>

definition to_dict :: "ThemeNode \<Rightarrow> error + theme_dict" where
  "to_dict n =
     (case domain n of
        None \<Rightarrow> Inl AttributeError
      | Some dv \<Rightarrow> Inr
          \<lparr> td_theme_id = Some (theme_id n),
            td_domain = Some (Domain_value dv),
            td_title = Some (title n),
            td_description = Some (description n),
            td_seed_questions = Some (seed_questions n),
            td_status = Some (NodeStatus_value (status n)),
            td_exploration_depth = Some (exploration_depth n),
            td_slots_filled = Some (slots_filled n),
            td_extracted_events_count = Some (int (length (extracted_events n))),
            td_priority = Some (priority n),
            td_depends_on = Some (depends_on n),
            td_completion_ratio = Some (get_completion_ratio n),
            td_created_at = Some (created_at n),
            td_first_mentioned_at = first_mentioned_at n,
            td_exhausted_at = exhausted_at n,
            td_extracted_events = None,
            td_trigger_logic = None,
            td_metadata = None,
            td_depth_level = None \<rparr>)"


section \<open>event\_node.py\<close>

text \<open>
  The dataclass \<^verbatim>\<open>EventNode\<close>. Its fields \<^verbatim>\<open>theme_id\<close>, \<^verbatim>\<open>title\<close>,
  \<^verbatim>\<open>description\<close> and \<^verbatim>\<open>created_at\<close> carry the prefix \<open>ev_\<close>, since a record field
  is a constant of the theory and \<open>ThemeNode\<close> has fields of these names. The two
  floating-point measures are only stored and copied.
\<close>

record EventNode =
  event_id :: string
  ev_theme_id :: string
  ev_title :: string
  ev_description :: string
  time_anchor :: "string option"
  location :: "string option"
  people_involved :: "string list"
  slots :: "(string \<times> string option) list"
  emotional_score :: rat
  information_density :: rat
  depth_level :: int
  related_events :: "string list"
  ev_created_at :: datetime

text \<open>
  \<^verbatim>\<open>__post_init__\<close>; \<open>uuid\<close> is the twelve hexadecimal digits that \<^verbatim>\<open>uuid4\<close> would
  yield.
\<close>

definition post_init :: "string \<Rightarrow> EventNode \<Rightarrow> EventNode" where
  "post_init uuid e =
     (let e1 = (if event_id e = [] then e\<lparr>event_id := ''evt_'' @ uuid\<rparr> else e)
      in if slots e1 = []
         then e1\<lparr>slots := [(''time'', None), (''location'', None), (''people'', None),
                            (''cause'', None), (''result'', None), (''emotion'', None),
                            (''reflection'', None)]\<rparr>
         else e1)"

text \<open>A slot value counts as filled when it is truthy: neither \<^verbatim>\<open>None\<close> nor empty.\<close>

definition get_slot_completion_ratio :: "EventNode \<Rightarrow> rat" where
  "get_slot_completion_ratio e =
     (if slots e = [] then 0
      else of_nat (length (filter (\<lambda>v. v \<noteq> None \<and> v \<noteq> Some []) (map snd (slots e))))
           / of_nat (length (slots e)))"

definition event_update_slot :: "string \<Rightarrow> string option \<Rightarrow> EventNode \<Rightarrow> EventNode" where
  "event_update_slot slot_name v e = e\<lparr>slots := dict_set slot_name v (slots e)\<rparr>"

definition add_person :: "string \<Rightarrow> EventNode \<Rightarrow> EventNode" where
  "add_person person_name e =
     (if person_name \<noteq> [] \<and> person_name \<notin> set (people_involved e)
      then e\<lparr>people_involved := people_involved e @ [person_name]\<rparr>
      else e)"

definition event_increment_depth :: "EventNode \<Rightarrow> EventNode" where
  "event_increment_depth e = e\<lparr>depth_level := min (depth_level e + 1) 5\<rparr>"

definition is_exhausted :: "EventNode \<Rightarrow> bool" where
  "is_exhausted e \<longleftrightarrow> depth_level e \<ge> 4 \<or> get_slot_completion_ratio e \<ge> 4 / 5"

definition add_related_event :: "string \<Rightarrow> EventNode \<Rightarrow> EventNode" where
  "add_related_event eid e =
     (if eid \<notin> set (related_events e)
      then e\<lparr>related_events := related_events e @ [eid]\<rparr>
      else e)"

text \<open>
  The serialized event. \<^verbatim>\<open>status\<close> is the key that \<^verbatim>\<open>_update_node_status\<close> sets on
  the payload of a graph node; \<^verbatim>\<open>to_dict\<close> does not write it.
\<close>

record event_dict =
  ed_event_id :: "string option"
  ed_theme_id :: "string option"
  ed_title :: "string option"
  ed_description :: "string option"
  ed_time_anchor :: "string option"
  ed_location :: "string option"
  ed_people_involved :: "string list option"
  ed_slots :: "(string \<times> string option) list option"
  ed_emotional_score :: "rat option"
  ed_information_density :: "rat option"
  ed_depth_level :: "int option"
  ed_slot_completion_ratio :: "rat option"
  ed_related_events :: "string list option"
  ed_is_exhausted :: "bool option"
  ed_created_at :: "datetime option"
  ed_status :: "string option"

definition event_to_dict :: "EventNode \<Rightarrow> event_dict" where
  "event_to_dict e =
     \<lparr> ed_event_id = Some (event_id e),
       ed_theme_id = Some (ev_theme_id e),
       ed_title = Some (ev_title e),
       ed_description = Some (ev_description e),
       ed_time_anchor = time_anchor e,
       ed_location = location e,
       ed_people_involved = Some (people_involved e),
       ed_slots = Some (slots e),
       ed_emotional_score = Some (emotional_score e),
       ed_information_density = Some (information_density e),
       ed_depth_level = Some (depth_level e),
       ed_slot_completion_ratio = Some (get_slot_completion_ratio e),
       ed_related_events = Some (related_events e),
       ed_is_exhausted = Some (is_exhausted e),
       ed_created_at = Some (ev_created_at e),
       ed_status = None \<rparr>"

definition event_from_dict :: "string \<Rightarrow> datetime \<Rightarrow> event_dict \<Rightarrow> error + EventNode" where
  "event_from_dict uuid now d =
     (case subscript ''event_id'' (ed_event_id d) of
        Inl e \<Rightarrow> Inl e
      | Inr eid \<Rightarrow>
     (case subscript ''theme_id'' (ed_theme_id d) of
        Inl e \<Rightarrow> Inl e
      | Inr tid \<Rightarrow>
     (case subscript ''title'' (ed_title d) of
        Inl e \<Rightarrow> Inl e
      | Inr ttl \<Rightarrow>
     (case subscript ''description'' (ed_description d) of
        Inl e \<Rightarrow> Inl e
      | Inr descr \<Rightarrow>
          Inr (post_init uuid
            \<lparr> event_id = eid,
              ev_theme_id = tid,
              ev_title = ttl,
              ev_description = descr,
              time_anchor = ed_time_anchor d,
              location = ed_location d,
              people_involved = get_default (ed_people_involved d) [],
              slots = get_default (ed_slots d) [],
              emotional_score = get_default (ed_emotional_score d) 0,
              information_density = get_default (ed_information_density d) 0,
              depth_level = get_default (ed_depth_level d) 0,
              related_events = get_default (ed_related_events d) [],
              ev_created_at = get_default (ed_created_at d) now \<rparr>)))))"


section \<open>theme\_loader.py\<close>

text \<open>
  A theme definition of the catalog, one optional field per key that
  \<^verbatim>\<open>_create_theme_node\<close> reads. The catalog is the value of the key \<^verbatim>\<open>domains\<close>
  (absent: \<open>None\<close>), a dictionary from domain keys to the value of the key
  \<^verbatim>\<open>themes\<close> of each domain (absent: \<open>None\<close>).
\<close>

record theme_def =
  def_theme_id :: "string option"
  def_title :: "string option"
  def_description :: "string option"
  def_seed_questions :: "string list option"
  def_priority :: "int option"
  def_depends_on :: "string list option"
  def_trigger_logic :: "(string \<times> string) list option"
  def_slots :: "string list option"
  def_expected_depth :: "int option"

type_synonym catalog = "(string \<times> theme_def list option) list option"

datatype log_record =
    Warning_unknown_domain string
  | Info_loaded nat

definition create_theme_node :: "datetime \<Rightarrow> theme_def \<Rightarrow> Domain \<Rightarrow> error + ThemeNode" where
  "create_theme_node now theme_def dv =
     (case subscript ''theme_id'' (def_theme_id theme_def) of
        Inl e \<Rightarrow> Inl e
      | Inr tid \<Rightarrow>
     (case subscript ''title'' (def_title theme_def) of
        Inl e \<Rightarrow> Inl e
      | Inr ttl \<Rightarrow>
     (case subscript ''description'' (def_description theme_def) of
        Inl e \<Rightarrow> Inl e
      | Inr descr \<Rightarrow> Inr
          \<lparr> theme_id = tid,
            domain = Some dv,
            title = ttl,
            description = descr,
            seed_questions = get_default (def_seed_questions theme_def) [],
            current_question_index = 0,
            status = PENDING,
            exploration_depth = 0,
            slots_filled =
              foldl (\<lambda>acc slot. dict_set slot False acc) []
                    (get_default (def_slots theme_def) []),
            extracted_events = [],
            trigger_logic = def_trigger_logic theme_def,
            priority = get_default (def_priority theme_def) 5,
            depends_on = get_default (def_depends_on theme_def) [],
            created_at = now,
            first_mentioned_at = None,
            exhausted_at = None,
            metadata = [(''expected_depth'', get_default (def_expected_depth theme_def) 3)] \<rparr>)))"

text \<open>The inner loop of \<^verbatim>\<open>load\<close>, over the theme definitions of one domain.\<close>

fun load_themes ::
  "datetime \<Rightarrow> Domain \<Rightarrow> theme_def list \<Rightarrow> (string \<times> ThemeNode) list \<Rightarrow> nat
     \<Rightarrow> error + ((string \<times> ThemeNode) list \<times> nat)" where
  "load_themes now dv [] acc theme_count = Inr (acc, theme_count)"
| "load_themes now dv (theme_def # rest) acc theme_count =
     (case create_theme_node now theme_def dv of
        Inl e \<Rightarrow> Inl e
      | Inr theme_node \<Rightarrow>
          load_themes now dv rest (dict_set (theme_id theme_node) theme_node acc)
                      (theme_count + 1))"

text \<open>The outer loop, over the domains; an unknown domain key is logged and skipped.\<close>

fun load_domains ::
  "datetime \<Rightarrow> (string \<times> theme_def list option) list \<Rightarrow> (string \<times> ThemeNode) list \<Rightarrow> nat
     \<Rightarrow> log_record list \<Rightarrow> error + (log_record list \<times> (string \<times> ThemeNode) list)" where
  "load_domains now [] acc theme_count logged = Inr (logged @ [Info_loaded theme_count], acc)"
| "load_domains now ((domain_id, domain_data) # rest) acc theme_count logged =
     (case Domain_of domain_id of
        Inl e \<Rightarrow> load_domains now rest acc theme_count (logged @ [Warning_unknown_domain domain_id])
      | Inr dv \<Rightarrow>
          (case load_themes now dv (get_default domain_data []) acc theme_count of
             Inl e \<Rightarrow> Inl e
           | Inr (acc', theme_count') \<Rightarrow> load_domains now rest acc' theme_count' logged))"

text \<open>
  \<^verbatim>\<open>ThemeLoader.load\<close>, given what reading the catalog json_file yields. The result is the
  records logged by the call and the mapping \<^verbatim>\<open>_theme_nodes\<close>.
\<close>

definition load ::
  "datetime \<Rightarrow> catalog json_file \<Rightarrow> error + (log_record list \<times> (string \<times> ThemeNode) list)" where
  "load now themes_file =
     (case read_json themes_file of
        Inl e \<Rightarrow> Inl e
      | Inr theme_definitions \<Rightarrow> load_domains now (get_default theme_definitions []) [] 0 [])"

text \<open>\<^verbatim>\<open>get_theme_count\<close>, on the mapping \<^verbatim>\<open>_theme_nodes\<close> of the loader.\<close>

definition get_theme_count :: "(string \<times> ThemeNode) list \<Rightarrow> nat" where
  "get_theme_count theme_nodes_of_loader = length theme_nodes_of_loader"

section \<open>graph\_manager.py\<close>

text \<open>
  The manager with the plain adjacency structure (\<^verbatim>\<open>use_networkx = False\<close>, the
  backend that the repository's test runs): \<^verbatim>\<open>graph["nodes"]\<close> maps a node id to its
  type, status and serialized payload, \<^verbatim>\<open>graph["edges"]\<close> maps a node id to the list of
  its successors.
\<close>

datatype node_data = ThemeData theme_dict | EventData event_dict

record graph_node =
  node_type :: string
  node_status :: string
  data :: node_data

record graph =
  nodes :: "(string \<times> graph_node) list"
  edges :: "(string \<times> string list) list"

record GraphManager =
  theme_nodes :: "(string \<times> ThemeNode) list"
  event_nodes :: "(string \<times> EventNode) list"
  graph :: graph

text \<open>
  The dependency edges of one theme: for each prerequisite, create its successor list
  if there is none, then append the theme.
\<close>

definition add_dependency_edges ::
  "string \<Rightarrow> string list \<Rightarrow> (string \<times> string list) list \<Rightarrow> (string \<times> string list) list" where
  "add_dependency_edges tid deps es =
     foldl (\<lambda>acc dep_id.
              case map_of acc dep_id of
                None \<Rightarrow> dict_set dep_id [tid] acc
              | Some succs \<Rightarrow> dict_set dep_id (succs @ [tid]) acc)
           es deps"

text \<open>
  The loop of \<^verbatim>\<open>_initialize_graph\<close> over the themes. When \<^verbatim>\<open>to_dict\<close> raises, the
  nodes and edges built so far stay, so the function returns them together with the
  exception.
\<close>

fun initialize_nodes :: "(string \<times> ThemeNode) list \<Rightarrow> graph \<Rightarrow> graph \<times> error option" where
  "initialize_nodes [] g = (g, None)"
| "initialize_nodes ((tid, theme_node) # rest) g =
     (case to_dict theme_node of
        Inl e \<Rightarrow> (g, Some e)
      | Inr d \<Rightarrow>
          initialize_nodes rest
            (g\<lparr>nodes := dict_set tid
                   \<lparr>node_type = ''theme'', node_status = NodeStatus_value PENDING,
                    data = ThemeData d\<rparr> (nodes g),
               edges := add_dependency_edges tid (depends_on theme_node) (edges g)\<rparr>))"

text \<open>
  \<^verbatim>\<open>_initialize_graph\<close>, which the constructor and \<^verbatim>\<open>reset\<close> run on the manager:
  load the themes and build one node per theme. The result is the manager as the call
  leaves it and the exception that escapes, if any: when the loader raises, the themes
  and the graph are still the old ones.
\<close>

definition initialize_graph ::
  "datetime \<Rightarrow> catalog json_file \<Rightarrow> GraphManager \<Rightarrow> GraphManager \<times> error option" where
  "initialize_graph now themes_file s =
     (case load now themes_file of
        Inl e \<Rightarrow> (s, Some e)
      | Inr (logged, themes) \<Rightarrow>
          (case initialize_nodes themes \<lparr>nodes = [], edges = []\<rparr> of
             (g, raised) \<Rightarrow> (s\<lparr>theme_nodes := themes, graph := g\<rparr>, raised)))"

text \<open>
  The constructor starts from empty collections; when \<^verbatim>\<open>_initialize_graph\<close> raises,
  there is no manager.
\<close>

definition GraphManager_init :: "datetime \<Rightarrow> catalog json_file \<Rightarrow> error + GraphManager" where
  "GraphManager_init now themes_file =
     (case initialize_graph now themes_file
             \<lparr>theme_nodes = [], event_nodes = [], graph = \<lparr>nodes = [], edges = []\<rparr>\<rparr> of
        (s, None) \<Rightarrow> Inr s
      | (s, Some e) \<Rightarrow> Inl e)"

text \<open>
  \<^verbatim>\<open>reset\<close> clears the events and then runs \<^verbatim>\<open>_initialize_graph\<close>; when that
  raises, the manager lives on with the events cleared.
\<close>

definition reset ::
  "datetime \<Rightarrow> catalog json_file \<Rightarrow> GraphManager \<Rightarrow> GraphManager \<times> error option" where
  "reset now themes_file s = initialize_graph now themes_file (s\<lparr>event_nodes := []\<rparr>)"

definition set_payload_status :: "string \<Rightarrow> node_data \<Rightarrow> node_data" where
  "set_payload_status v p =
     (case p of ThemeData d \<Rightarrow> ThemeData (d\<lparr>td_status := Some v\<rparr>)
              | EventData d \<Rightarrow> EventData (d\<lparr>ed_status := Some v\<rparr>))"

definition set_payload_depth_level :: "int \<Rightarrow> node_data \<Rightarrow> node_data" where
  "set_payload_depth_level v p =
     (case p of ThemeData d \<Rightarrow> ThemeData (d\<lparr>td_depth_level := Some v\<rparr>)
              | EventData d \<Rightarrow> EventData (d\<lparr>ed_depth_level := Some v\<rparr>))"

definition update_node_status :: "string \<Rightarrow> NodeStatus \<Rightarrow> graph \<Rightarrow> graph" where
  "update_node_status node_id st g =
     (case map_of (nodes g) node_id of
        None \<Rightarrow> g
      | Some nd \<Rightarrow>
          g\<lparr>nodes := dict_set node_id
                (nd\<lparr>node_status := NodeStatus_value st,
                    data := set_payload_status (NodeStatus_value st) (data nd)\<rparr>)
                (nodes g)\<rparr>)"

text \<open>The containment edge theme \<open>\<rightarrow>\<close> event of \<^verbatim>\<open>add_event_node\<close>.\<close>

definition add_contains_edge ::
  "string \<Rightarrow> string \<Rightarrow> (string \<times> string list) list \<Rightarrow> (string \<times> string list) list" where
  "add_contains_edge tid eid es =
     (case map_of es tid of
        None \<Rightarrow> dict_set tid [eid] es
      | Some succs \<Rightarrow> if eid \<notin> set succs then dict_set tid (succs @ [eid]) es else es)"

definition add_event_node ::
  "datetime \<Rightarrow> EventNode \<Rightarrow> string \<Rightarrow> GraphManager \<Rightarrow> GraphManager \<times> bool" where
  "add_event_node now event tid s =
     (case map_of (theme_nodes s) tid of
        None \<Rightarrow> (s, False)
      | Some theme \<Rightarrow>
          let events' = dict_set (event_id event) event (event_nodes s);
              g1 = (graph s)
                \<lparr>nodes := dict_set (event_id event)
                     \<lparr>node_type = ''event'', node_status = ''active'',
                      data = EventData (event_to_dict event)\<rparr> (nodes (graph s)),
                 edges := add_contains_edge tid (event_id event) (edges (graph s))\<rparr>;
              theme1 = increment_depth (add_extracted_event (event_id event) theme)
          in if status theme1 = PENDING
             then (\<lparr>theme_nodes = dict_set tid (mark_mentioned now theme1) (theme_nodes s),
                    event_nodes = events',
                    graph = update_node_status tid MENTIONED g1\<rparr>, True)
             else (\<lparr>theme_nodes = dict_set tid theme1 (theme_nodes s),
                    event_nodes = events',
                    graph = g1\<rparr>, True))"

definition update_event_depth :: "string \<Rightarrow> int \<Rightarrow> GraphManager \<Rightarrow> GraphManager \<times> bool" where
  "update_event_depth eid new_depth s =
     (case map_of (event_nodes s) eid of
        None \<Rightarrow> (s, False)
      | Some event \<Rightarrow>
          let event' = event\<lparr>depth_level := min new_depth 5\<rparr>;
              g = graph s;
              g' = (case map_of (nodes g) eid of
                      None \<Rightarrow> g
                    | Some nd \<Rightarrow>
                        g\<lparr>nodes := dict_set eid
                              (nd\<lparr>data := set_payload_depth_level (depth_level event') (data nd)\<rparr>)
                              (nodes g)\<rparr>)
          in (s\<lparr>event_nodes := dict_set eid event' (event_nodes s), graph := g'\<rparr>, True))"

definition mark_theme_exhausted :: "datetime \<Rightarrow> string \<Rightarrow> GraphManager \<Rightarrow> GraphManager \<times> bool" where
  "mark_theme_exhausted now tid s =
     (case map_of (theme_nodes s) tid of
        None \<Rightarrow> (s, False)
      | Some theme \<Rightarrow>
          (s\<lparr>theme_nodes := dict_set tid (mark_exhausted now theme) (theme_nodes s),
             graph := update_node_status tid EXHAUSTED (graph s)\<rparr>, True))"

definition get_pending_theme_nodes :: "GraphManager \<Rightarrow> ThemeNode list" where
  "get_pending_theme_nodes s = filter (\<lambda>node. status node = PENDING) (map snd (theme_nodes s))"

definition get_mentioned_theme_nodes :: "GraphManager \<Rightarrow> ThemeNode list" where
  "get_mentioned_theme_nodes s = filter (\<lambda>node. status node = MENTIONED) (map snd (theme_nodes s))"

definition get_exhausted_theme_nodes :: "GraphManager \<Rightarrow> ThemeNode list" where
  "get_exhausted_theme_nodes s = filter (\<lambda>node. status node = EXHAUSTED) (map snd (theme_nodes s))"

text \<open>The local list \<^verbatim>\<open>pending\<close> of \<^verbatim>\<open>get_next_candidate_theme\<close>.\<close>

definition ready_pending_theme_nodes :: "GraphManager \<Rightarrow> ThemeNode list" where
  "ready_pending_theme_nodes s =
     filter (\<lambda>node. status node = PENDING \<and> is_ready_to_explore node (Some (theme_nodes s)))
            (map snd (theme_nodes s))"

definition get_next_candidate_theme :: "string option \<Rightarrow> GraphManager \<Rightarrow> ThemeNode option" where
  "get_next_candidate_theme current_focus s =
     (case get_mentioned_theme_nodes s of
        m # ms \<Rightarrow> Some (min_loop get_completion_ratio m ms)
      | [] \<Rightarrow>
          (case ready_pending_theme_nodes s of
             [] \<Rightarrow> None
           | p # ps \<Rightarrow> Some (min_loop priority p ps)))"

text \<open>\<^verbatim>\<open>get_theme_status\<close>: the snapshot of one theme.\<close>

record theme_status =
  ts_theme_id :: string
  ts_title :: string
  ts_status :: string
  ts_completion_ratio :: rat
  ts_exploration_depth :: int
  ts_slots_filled :: "(string \<times> bool) list"
  ts_extracted_events_count :: nat
  ts_has_more_questions :: bool

definition get_theme_status :: "string \<Rightarrow> GraphManager \<Rightarrow> theme_status option" where
  "get_theme_status tid s =
     (case map_of (theme_nodes s) tid of
        None \<Rightarrow> None
      | Some theme \<Rightarrow> Some
          \<lparr> ts_theme_id = theme_id theme,
            ts_title = title theme,
            ts_status = NodeStatus_value (status theme),
            ts_completion_ratio = get_completion_ratio theme,
            ts_exploration_depth = exploration_depth theme,
            ts_slots_filled = slots_filled theme,
            ts_extracted_events_count = length (extracted_events theme),
            ts_has_more_questions = has_more_questions theme \<rparr>)"

subsection \<open>Checkpoints\<close>

text \<open>
  \<^verbatim>\<open>save_checkpoint\<close> does not change the manager; what it does to the file system is
  given by the outcome of \<^verbatim>\<open>mkdir\<close> and of the three writes (\<open>None\<close>: no
  exception). The result is the exception that escapes, or the returned flag together
  with the contents of the files completely written.
\<close>

record checkpoint =
  graph_state_json :: "graph option"
  themes_state_json :: "(string \<times> theme_dict) list option"
  events_json :: "(string \<times> event_dict) list option"

fun themes_to_dicts :: "(string \<times> ThemeNode) list \<Rightarrow> error + (string \<times> theme_dict) list" where
  "themes_to_dicts [] = Inr []"
| "themes_to_dicts ((tid, node) # rest) =
     (case to_dict node of
        Inl e \<Rightarrow> Inl e
      | Inr d \<Rightarrow> (case themes_to_dicts rest of Inl e \<Rightarrow> Inl e | Inr ds \<Rightarrow> Inr ((tid, d) # ds)))"

definition save_checkpoint ::
  "error option \<Rightarrow> error option \<Rightarrow> error option \<Rightarrow> error option \<Rightarrow> GraphManager
     \<Rightarrow> error + (bool \<times> checkpoint)" where
  "save_checkpoint mkdir write_graph write_themes write_events s =
     (case mkdir of
        Some e \<Rightarrow> Inl e
      | None \<Rightarrow> Inr
         (let c0 = \<lparr>graph_state_json = None, themes_state_json = None, events_json = None\<rparr>
          in case write_graph of
            Some e \<Rightarrow> (False, c0)
          | None \<Rightarrow>
              let c1 = c0\<lparr>graph_state_json := Some (graph s)\<rparr>
              in (case themes_to_dicts (theme_nodes s) of
                    Inl e \<Rightarrow> (False, c1)
                  | Inr themes_data \<Rightarrow>
                      (case write_themes of
                         Some e \<Rightarrow> (False, c1)
                       | None \<Rightarrow>
                           let c2 = c1\<lparr>themes_state_json := Some themes_data\<rparr>;
                               events_data = map (\<lambda>(eid, node). (eid, event_to_dict node))
                                                 (event_nodes s)
                           in (case write_events of
                                 Some e \<Rightarrow> (False, c2)
                               | None \<Rightarrow> (True, c2\<lparr>events_json := Some events_data\<rparr>))))))"

text \<open>
  The loop of \<^verbatim>\<open>load_checkpoint\<close> over \<^verbatim>\<open>themes_state.json\<close>. It updates the
  themes one after the other; when a record raises, the themes updated so far stay
  updated, so the function returns them together with the exception.
\<close>

fun restore_themes ::
  "(string \<times> ThemeNode) list \<Rightarrow> (string \<times> theme_dict) list
     \<Rightarrow> (string \<times> ThemeNode) list \<times> error option" where
  "restore_themes ths [] = (ths, None)"
| "restore_themes ths ((tid, theme_dict) # rest) =
     (case map_of ths tid of
        None \<Rightarrow> restore_themes ths rest
      | Some theme \<Rightarrow>
          (case subscript ''status'' (td_status theme_dict) of
             Inl e \<Rightarrow> (ths, Some e)
           | Inr sv \<Rightarrow>
               (case NodeStatus_of sv of
                  Inl e \<Rightarrow> (ths, Some e)
                | Inr st \<Rightarrow>
                    restore_themes
                      (dict_set tid
                         (theme\<lparr>status := st,
                                exploration_depth := get_default (td_exploration_depth theme_dict) 0,
                                slots_filled := get_default (td_slots_filled theme_dict) []\<rparr>)
                         ths)
                      rest)))"

text \<open>
  The loop over \<^verbatim>\<open>events.json\<close>; \<open>uuid_for k\<close> is what \<^verbatim>\<open>uuid4\<close> would yield while
  the record under key \<open>k\<close> is built.
\<close>

fun restore_events ::
  "(string \<Rightarrow> string) \<Rightarrow> datetime \<Rightarrow> (string \<times> EventNode) list \<Rightarrow> (string \<times> event_dict) list
     \<Rightarrow> (string \<times> EventNode) list \<times> error option" where
  "restore_events uuid_for now evs [] = (evs, None)"
| "restore_events uuid_for now evs ((eid, event_dict) # rest) =
     (case event_from_dict (uuid_for eid) now event_dict of
        Inl e \<Rightarrow> (evs, Some e)
      | Inr event \<Rightarrow> restore_events uuid_for now (dict_set eid event evs) rest)"

text \<open>
  \<^verbatim>\<open>load_checkpoint\<close>, given what reading the three files yields. Both handlers of the
  source return \<^verbatim>\<open>False\<close>, with the manager as it is when the exception is raised.
\<close>

definition load_checkpoint ::
  "(string \<Rightarrow> string) \<Rightarrow> datetime \<Rightarrow> graph json_file \<Rightarrow> (string \<times> theme_dict) list json_file
     \<Rightarrow> (string \<times> event_dict) list json_file \<Rightarrow> GraphManager \<Rightarrow> GraphManager \<times> bool" where
  "load_checkpoint uuid_for now graph_file themes_file events_file s =
     (case read_json graph_file of
        Inl e \<Rightarrow> (s, False)
      | Inr graph_data \<Rightarrow>
          let s1 = s\<lparr>graph := graph_data\<rparr>
          in (case read_json themes_file of
                Inl e \<Rightarrow> (s1, False)
              | Inr themes_data \<Rightarrow>
                  (case restore_themes (theme_nodes s1) themes_data of
                     (ths, Some e) \<Rightarrow> (s1\<lparr>theme_nodes := ths\<rparr>, False)
                   | (ths, None) \<Rightarrow>
                       let s2 = s1\<lparr>theme_nodes := ths\<rparr>
                       in (case read_json events_file of
                             Inl e \<Rightarrow> (s2, False)
                           | Inr events_data \<Rightarrow>
                               (case restore_events uuid_for now (event_nodes s2) events_data of
                                  (evs, Some e) \<Rightarrow> (s2\<lparr>event_nodes := evs\<rparr>, False)
                                | (evs, None) \<Rightarrow> (s2\<lparr>event_nodes := evs\<rparr>, True))))))"

subsection \<open>Sequences of calls\<close>

text \<open>
  The public operations that the collaborator calls on a manager. \<open>exec\<close> gives the
  manager as a call leaves it, whether the call returns or an exception escapes from it
  (the caller may catch the exception and go on with the manager), and \<open>run\<close> does so
  for a sequence of calls. \<open>reachable_by ok\<close> holds of the managers that the constructor
  built and that calls satisfying \<open>ok\<close>, a condition on the call and the manager it is
  made on, have led to.
\<close>

datatype call =
    Add_event_node datetime EventNode string
  | Update_event_depth string int
  | Mark_theme_exhausted datetime string
  | Save_checkpoint "error option" "error option" "error option" "error option"
  | Load_checkpoint "string \<Rightarrow> string" datetime "graph json_file"
      "(string \<times> theme_dict) list json_file" "(string \<times> event_dict) list json_file"
  | Reset datetime "catalog json_file"

fun exec :: "call \<Rightarrow> GraphManager \<Rightarrow> GraphManager" where
  "exec (Add_event_node now event tid) s = fst (add_event_node now event tid s)"
| "exec (Update_event_depth eid new_depth) s = fst (update_event_depth eid new_depth s)"
| "exec (Mark_theme_exhausted now tid) s = fst (mark_theme_exhausted now tid s)"
| "exec (Save_checkpoint mkdir wg wt we) s = s"
| "exec (Load_checkpoint uuid_for now gf tf ef) s = fst (load_checkpoint uuid_for now gf tf ef s)"
| "exec (Reset now themes_file) s = fst (reset now themes_file s)"

fun run :: "call list \<Rightarrow> GraphManager \<Rightarrow> GraphManager" where
  "run [] s = s"
| "run (c # cs) s = run cs (exec c s)"



subsection \<open>An example session\<close>

text \<open>
  A catalog of four themes, in which \<open>T\<close> and \<open>U\<close> depend on \<open>X\<close>, and the managers that
  sequences of calls lead to from the manager constructed on it. \<open>example_state\<close> is the
  manager at the end of such a sequence (the empty manager stands in when the
  constructor raises, which it does not on this catalog).
\<close>

definition example_theme_def :: "string \<Rightarrow> int \<Rightarrow> string list \<Rightarrow> theme_def" where
  "example_theme_def tid prio deps =
     \<lparr> def_theme_id = Some tid, def_title = Some ''title'',
       def_description = Some ''description'', def_seed_questions = Some [''q1'', ''q2''],
       def_priority = Some prio, def_depends_on = Some deps, def_trigger_logic = None,
       def_slots = None, def_expected_depth = None \<rparr>"

definition example_catalog :: catalog where
  "example_catalog =
     Some [(''life_chapters'',
              Some [example_theme_def ''X'' 2 [], example_theme_def ''T'' 1 [''X'']]),
           (''key_scenes'',
              Some [example_theme_def ''Y'' 2 [], example_theme_def ''U'' 2 [''X'']])]"

definition example_event :: "string \<Rightarrow> string \<Rightarrow> EventNode" where
  "example_event eid tid =
     post_init ''0123456789ab''
       \<lparr> event_id = eid, ev_theme_id = tid, ev_title = ''title'',
         ev_description = ''description'', time_anchor = None, location = None,
         people_involved = [], slots = [], emotional_score = 0, information_density = 0,
         depth_level = 0, related_events = [], ev_created_at = 0 \<rparr>"

definition session :: "call list \<Rightarrow> GraphManager option" where
  "session calls =
     (case GraphManager_init 0 (Parsed example_catalog) of
        Inl e \<Rightarrow> None
      | Inr s \<Rightarrow> Some (run calls s))"

definition example_state :: "call list \<Rightarrow> GraphManager" where
  "example_state calls =
     (case session calls of
        Some s \<Rightarrow> s
      | None \<Rightarrow> \<lparr>theme_nodes = [], event_nodes = [], graph = \<lparr>nodes = [], edges = []\<rparr>\<rparr>)"


definition dependent_mentioned :: "call list" where
  "dependent_mentioned = [Add_event_node 1 (example_event ''e1'' ''T'') ''T'']"

definition prerequisite_exhausted :: "call list" where
  "prerequisite_exhausted = [Mark_theme_exhausted 1 ''X'']"

definition two_exhausted :: "call list" where
  "two_exhausted = [Mark_theme_exhausted 1 ''X'', Mark_theme_exhausted 2 ''T'']"

definition one_event :: "call list" where
  "one_event = [Add_event_node 1 (example_event ''e1'' ''X'') ''X'']"

definition five_events :: "call list" where
  "five_events =
     [Add_event_node 1 (example_event ''e1'' ''X'') ''X'',
      Add_event_node 2 (example_event ''e2'' ''X'') ''X'',
      Add_event_node 3 (example_event ''e3'' ''X'') ''X'',
      Add_event_node 4 (example_event ''e4'' ''X'') ''X'',
      Add_event_node 5 (example_event ''e5'' ''X'') ''X'']"

subsection \<open>Consistency between themes and events\<close>








text \<open>
  A round trip: the files that a successful \<^verbatim>\<open>save_checkpoint\<close> writes, and what
  reading them back gives.
\<close>

definition checkpoint_of :: "GraphManager \<Rightarrow> checkpoint" where
  "checkpoint_of s =
     (case save_checkpoint None None None None s of
        Inr (ok, c) \<Rightarrow> c
      | Inl e \<Rightarrow> \<lparr>graph_state_json = None, themes_state_json = None, events_json = None\<rparr>)"

definition file_of :: "'a option \<Rightarrow> 'a json_file" where
  "file_of written = (case written of None \<Rightarrow> Missing | Some content \<Rightarrow> Parsed content)"





subsection \<open>The lifecycle order\<close>

text \<open>
  The position of a status in the lifecycle PENDING \<open>\<rightarrow>\<close> MENTIONED \<open>\<rightarrow>\<close> EXHAUSTED that
  \<^verbatim>\<open>node_status.py\<close> documents, and the calls that restore a manager from outside
  (a checkpoint or the catalog) rather than advance it.
\<close>

fun lifecycle_position :: "NodeStatus \<Rightarrow> nat" where
  "lifecycle_position PENDING = 0"
| "lifecycle_position MENTIONED = 1"
| "lifecycle_position EXHAUSTED = 2"

fun restores :: "call \<Rightarrow> bool" where
  "restores (Load_checkpoint uuid_for now gf tf ef) = True"
| "restores (Reset now themes_file) = True"
| "restores c = False"

definition fresh_checkpoint :: checkpoint where
  "fresh_checkpoint = checkpoint_of (example_state [])"

definition exhausted_then_loaded :: "call list" where
  "exhausted_then_loaded =
     prerequisite_exhausted
       @ [Load_checkpoint (\<lambda>k. ''0123456789ab'') 3 (file_of (graph_state_json fresh_checkpoint))
            (file_of (themes_state_json fresh_checkpoint))
            (file_of (events_json fresh_checkpoint))]"

definition exhausted_then_reset :: "call list" where
  "exhausted_then_reset = prerequisite_exhausted @ [Reset 2 (Parsed example_catalog)]"

definition forward_calls :: "call list" where
  "forward_calls =
     [Add_event_node 1 (example_event ''e1'' ''X'') ''X'',
      Update_event_depth ''e1'' 3,
      Save_checkpoint None None None None,
      Mark_theme_exhausted 2 ''X'',
      Add_event_node 3 (example_event ''e2'' ''X'') ''X'']"

subsection \<open>Round trip of a theme\<close>




subsection \<open>The definitions that the loader processes\<close>

text \<open>
  The theme definitions of the catalog under the domain keys that resolve, each with
  its domain, in the order in which \<^verbatim>\<open>load\<close> processes them.
\<close>

fun resolvable_of :: "(string \<times> theme_def list option) list \<Rightarrow> (Domain \<times> theme_def) list" where
  "resolvable_of [] = []"
| "resolvable_of ((domain_id, domain_data) # rest) =
     (case Domain_of domain_id of
        Inl e \<Rightarrow> []
      | Inr dv \<Rightarrow> map (Pair dv) (get_default domain_data []))
     @ resolvable_of rest"

definition resolvable_definitions :: "catalog \<Rightarrow> (Domain \<times> theme_def) list" where
  "resolvable_definitions c = resolvable_of (get_default c [])"

text \<open>
  A catalog in which \<open>A\<close> is defined twice, in two domains, with an unknown domain in
  between; and what \<^verbatim>\<open>load\<close> returns on it.
\<close>

definition duplicate_catalog :: catalog where
  "duplicate_catalog =
     Some [(''life_chapters'', Some [example_theme_def ''A'' 1 [], example_theme_def ''B'' 2 []]),
           (''experimental'', Some [example_theme_def ''C'' 3 []]),
           (''key_scenes'', Some [example_theme_def ''A'' 7 []])]"

definition loaded_duplicates :: "log_record list \<times> (string \<times> ThemeNode) list" where
  "loaded_duplicates =
     (case load 0 (Parsed duplicate_catalog) of Inr r \<Rightarrow> r | Inl e \<Rightarrow> ([], []))"

text \<open>The mapping after the nodes of a list have been stored one after the other.\<close>

definition insert_all :: "(string \<times> ThemeNode) list \<Rightarrow> ThemeNode list \<Rightarrow> (string \<times> ThemeNode) list" where
  "insert_all acc ns = foldl (\<lambda>a n. dict_set (theme_id n) n a) acc ns"

text \<open>The warnings that \<^verbatim>\<open>load\<close> logs: one for every domain key that does not resolve.\<close>

definition unknown_domain_warnings :: "(string \<times> theme_def list option) list \<Rightarrow> log_record list" where
  "unknown_domain_warnings doms =
     map Warning_unknown_domain (filter (\<lambda>k. isl (Domain_of k)) (map fst doms))"





subsection \<open>What a restore applies\<close>












section \<open>Properties\<close>

subsection \<open>The first minimal item\<close>

lemma min_loop_first_min:
  "\<exists>i\<le>length xs. min_loop key b xs = (b # xs) ! i
     \<and> (\<forall>j\<le>length xs. key ((b # xs) ! i) \<le> key ((b # xs) ! j))
     \<and> (\<forall>j<i. key ((b # xs) ! i) < key ((b # xs) ! j))"
proof (induction xs arbitrary: b)
  case Nil
  then show ?case by simp
next
  case (Cons x xs)
  let ?b' = "if key x < key b then x else b"
  from Cons.IH[of ?b'] obtain i where i: "i \<le> length xs"
    and r: "min_loop key ?b' xs = (?b' # xs) ! i"
    and mn: "\<forall>j\<le>length xs. key ((?b' # xs) ! i) \<le> key ((?b' # xs) ! j)"
    and fst: "\<forall>j<i. key ((?b' # xs) ! i) < key ((?b' # xs) ! j)"
    by blast
  show ?case
  proof (cases i)
    case 0
    show ?thesis
    proof (cases "key x < key b")
      case True
      have "min_loop key b (x # xs) = (b # x # xs) ! 1" using r 0 True by simp
      moreover have "\<forall>j\<le>length (x # xs). key x \<le> key ((b # x # xs) ! j)"
      proof (intro allI impI)
        fix j assume j: "j \<le> length (x # xs)"
        show "key x \<le> key ((b # x # xs) ! j)"
        proof (cases j)
          case 0 then show ?thesis using True by simp
        next
          case (Suc k)
          then have "k \<le> length xs" using j by simp
          with mn 0 True have "key x \<le> key ((x # xs) ! k)" by simp
          then show ?thesis using Suc by simp
        qed
      qed
      moreover have "\<forall>j<1. key x < key ((b # x # xs) ! j)" using True by simp
      ultimately show ?thesis
        by (intro exI[of _ 1]) simp
    next
      case False
      have "min_loop key b (x # xs) = (b # x # xs) ! 0" using r 0 False by simp
      moreover have "\<forall>j\<le>length (x # xs). key b \<le> key ((b # x # xs) ! j)"
      proof (intro allI impI)
        fix j assume j: "j \<le> length (x # xs)"
        show "key b \<le> key ((b # x # xs) ! j)"
        proof (cases j)
          case 0 then show ?thesis by simp
        next
          case (Suc k)
          show ?thesis
          proof (cases k)
            case 0 then show ?thesis using Suc False by simp
          next
            case (Suc m)
            then have "Suc m \<le> length xs" using j \<open>j = Suc k\<close> by simp
            with mn \<open>i = 0\<close> False have "key b \<le> key ((b # xs) ! Suc m)" by auto
            then show ?thesis using Suc \<open>j = Suc k\<close> by simp
          qed
        qed
      qed
      ultimately show ?thesis
        by (intro exI[of _ 0]) simp
    qed
  next
    case (Suc i')
    have lt: "key (xs ! i') < key ?b'" using fst Suc by auto
    have res: "min_loop key b (x # xs) = (b # x # xs) ! Suc (Suc i')" using r Suc by simp
    have le_all: "\<forall>j\<le>length (x # xs). key (xs ! i') \<le> key ((b # x # xs) ! j)"
    proof (intro allI impI)
      fix j assume j: "j \<le> length (x # xs)"
      show "key (xs ! i') \<le> key ((b # x # xs) ! j)"
      proof (cases j)
        case 0 then show ?thesis using lt by (auto split: if_splits)
      next
        case (Suc k)
        show ?thesis
        proof (cases k)
          case 0 then show ?thesis using \<open>j = Suc k\<close> lt by (auto split: if_splits)
        next
          case (Suc m)
          then have "Suc m \<le> length xs" using j \<open>j = Suc k\<close> by simp
          with mn \<open>i = Suc i'\<close> have "key (xs ! i') \<le> key (xs ! m)" by auto
          then show ?thesis using Suc \<open>j = Suc k\<close> by simp
        qed
      qed
    qed
    have lt_before: "\<forall>j<Suc (Suc i'). key (xs ! i') < key ((b # x # xs) ! j)"
    proof (intro allI impI)
      fix j assume j: "j < Suc (Suc i')"
      show "key (xs ! i') < key ((b # x # xs) ! j)"
      proof (cases j)
        case 0 then show ?thesis using lt by (auto split: if_splits)
      next
        case (Suc k)
        show ?thesis
        proof (cases k)
          case 0 then show ?thesis using \<open>j = Suc k\<close> lt by (auto split: if_splits)
        next
          case (Suc m)
          then have "Suc m < i" using j \<open>j = Suc k\<close> \<open>i = Suc i'\<close> by simp
          with fst \<open>i = Suc i'\<close> have "key (xs ! i') < key (xs ! m)" by auto
          then show ?thesis using Suc \<open>j = Suc k\<close> by simp
        qed
      qed
    qed
    from i Suc have "Suc (Suc i') \<le> length (x # xs)" by simp
    with res le_all lt_before show ?thesis
      by (intro exI[of _ "Suc (Suc i')"]) simp
  qed
qed

lemma min_loop_Cons:
  "\<exists>i<length (b # xs). min_loop key b xs = (b # xs) ! i
     \<and> (\<forall>j<length (b # xs). key ((b # xs) ! i) \<le> key ((b # xs) ! j))
     \<and> (\<forall>j<i. key ((b # xs) ! i) < key ((b # xs) ! j))"
  using min_loop_first_min[of xs key b] by (simp add: less_Suc_eq_le)

subsection \<open>The next candidate theme\<close>



lemma min_loop_keep: "\<forall>y\<in>set xs. key b \<le> key y \<Longrightarrow> min_loop key b xs = b"
  by (induction xs arbitrary: b) (auto simp: not_less)

lemma min_loop_pick:
  "\<forall>y\<in>set pre. key t < key y \<Longrightarrow> \<forall>y\<in>set post. key t \<le> key y \<Longrightarrow> key t < key b
     \<Longrightarrow> min_loop key b (pre @ t # post) = t"
proof (induction pre arbitrary: b)
  case Nil
  then show ?case by (simp add: min_loop_keep)
next
  case (Cons p pre)
  then show ?case by simp
qed

lemma min_loop_mem: "min_loop key b xs \<in> set (b # xs)"
  using min_loop_Cons[of b xs key] by (metis nth_mem)

subsection \<open>Dependencies and the next candidate\<close>

text \<open>
  Claim C2, amended. A theme \<open>T\<close> with \<^verbatim>\<open>depends_on = ["X"]\<close> that is still PENDING is
  returned by \<^verbatim>\<open>get_next_candidate_theme\<close> only if \<open>X\<close> is a theme of the manager
  and is EXHAUSTED (a \<open>T\<close> that is already MENTIONED is in the first phase, which does
  not look at dependencies). And if \<open>X\<close> is EXHAUSTED, \<open>T\<close> is PENDING, no theme is
  MENTIONED, every ready PENDING theme before \<open>T\<close> in the theme map has a strictly larger
  priority number and every ready PENDING theme after \<open>T\<close> has a priority number at
  least that of \<open>T\<close>, then the call returns \<open>T\<close>.
\<close>

theorem dependent_theme_gate:
  "(get_next_candidate_theme current_focus s = Some T \<and> status T = PENDING
      \<and> depends_on T = [X]
      \<longrightarrow> (\<exists>x. map_of (theme_nodes s) X = Some x \<and> status x = EXHAUSTED))
   \<and> (map snd (theme_nodes s) = before @ T # after \<and> status T = PENDING
      \<and> depends_on T = [X]
      \<and> (\<exists>x. map_of (theme_nodes s) X = Some x \<and> status x = EXHAUSTED)
      \<and> get_mentioned_theme_nodes s = []
      \<and> (\<forall>n\<in>set before. status n = PENDING \<and> is_ready_to_explore n (Some (theme_nodes s))
                            \<longrightarrow> priority T < priority n)
      \<and> (\<forall>n\<in>set after. status n = PENDING \<and> is_ready_to_explore n (Some (theme_nodes s))
                           \<longrightarrow> priority T \<le> priority n)
      \<longrightarrow> get_next_candidate_theme current_focus s = Some T)"
proof (intro conjI impI)
  assume a: "get_next_candidate_theme current_focus s = Some T \<and> status T = PENDING
      \<and> depends_on T = [X]"
  have mem: "T \<in> set (ready_pending_theme_nodes s)"
  proof (cases "get_mentioned_theme_nodes s")
    case (Cons m ms)
    with a have "T = min_loop get_completion_ratio m ms"
      by (simp add: get_next_candidate_theme_def)
    then have "T \<in> set (get_mentioned_theme_nodes s)"
      using min_loop_mem[of get_completion_ratio m ms] Cons by simp
    then have "status T = MENTIONED" by (auto simp: get_mentioned_theme_nodes_def)
    with a show ?thesis by simp
  next
    case Nil
    show ?thesis
    proof (cases "ready_pending_theme_nodes s")
      case Nil
      with \<open>get_mentioned_theme_nodes s = []\<close> a show ?thesis
        by (simp add: get_next_candidate_theme_def)
    next
      case (Cons p ps)
      with \<open>get_mentioned_theme_nodes s = []\<close> a have "T = min_loop priority p ps"
        by (simp add: get_next_candidate_theme_def)
      then show ?thesis using min_loop_mem[of priority p ps] Cons by simp
    qed
  qed
  then have "is_ready_to_explore T (Some (theme_nodes s))"
    by (auto simp: ready_pending_theme_nodes_def)
  with a show "\<exists>x. map_of (theme_nodes s) X = Some x \<and> status x = EXHAUSTED"
    by (auto simp: is_ready_to_explore_def split: option.splits)
next
  let ?Q = "\<lambda>node. status node = PENDING \<and> is_ready_to_explore node (Some (theme_nodes s))"
  assume b: "map snd (theme_nodes s) = before @ T # after \<and> status T = PENDING
      \<and> depends_on T = [X]
      \<and> (\<exists>x. map_of (theme_nodes s) X = Some x \<and> status x = EXHAUSTED)
      \<and> get_mentioned_theme_nodes s = []
      \<and> (\<forall>n\<in>set before. ?Q n \<longrightarrow> priority T < priority n)
      \<and> (\<forall>n\<in>set after. ?Q n \<longrightarrow> priority T \<le> priority n)"
  then have ready: "?Q T" by (auto simp: is_ready_to_explore_def)
  with b have P: "ready_pending_theme_nodes s = filter ?Q before @ T # filter ?Q after"
    by (simp add: ready_pending_theme_nodes_def)
  have pre: "\<forall>y\<in>set (filter ?Q before). priority T < priority y" using b by auto
  have post: "\<forall>y\<in>set (filter ?Q after). priority T \<le> priority y" using b by auto
  show "get_next_candidate_theme current_focus s = Some T"
  proof (cases "filter ?Q before")
    case Nil
    with P b post show ?thesis
      by (simp add: get_next_candidate_theme_def min_loop_keep)
  next
    case (Cons p ps)
    with pre have "priority T < priority p" and "\<forall>y\<in>set ps. priority T < priority y" by auto
    with post have "min_loop priority p (ps @ T # filter ?Q after) = T"
      by (intro min_loop_pick) auto
    with P b Cons show ?thesis
      by (simp add: get_next_candidate_theme_def)
  qed
qed

text \<open>
  The amended claim at the manager in which \<open>X\<close> has been marked exhausted: \<open>T\<close>
  (priority 1) is returned.
\<close>

theorem dependent_theme_gate_witness:
  "(let S = example_state prerequisite_exhausted;
        vs = map snd (theme_nodes S);
        T = vs ! 1
    in session prerequisite_exhausted = Some S
       \<and> theme_id T = ''T'' \<and> status T = PENDING \<and> depends_on T = [''X'']
       \<and> vs = take 1 vs @ T # drop 2 vs
       \<and> map_option status (map_of (theme_nodes S) ''X'') = Some EXHAUSTED
       \<and> get_mentioned_theme_nodes S = []
       \<and> get_next_candidate_theme None S = Some T
       \<and> (\<exists>x. map_of (theme_nodes S) ''X'' = Some x \<and> status x = EXHAUSTED))"
proof -
  let ?S = "example_state prerequisite_exhausted"
  let ?vs = "map snd (theme_nodes ?S)"
  let ?T = "?vs ! 1"
  have s: "session prerequisite_exhausted = Some ?S" by code_simp
  have t1: "theme_id ?T = ''T''" by code_simp
  have t2: "status ?T = PENDING" by code_simp
  have t3: "depends_on ?T = [''X'']" by code_simp
  have len: "length ?vs = 4" by code_simp
  have dec: "?vs = take 1 ?vs @ ?T # drop 2 ?vs"
    using id_take_nth_drop[of 1 ?vs] len by (simp add: numeral_2_eq_2)
  have x: "map_option status (map_of (theme_nodes ?S) ''X'') = Some EXHAUSTED" by code_simp
  then have ex: "\<exists>x. map_of (theme_nodes ?S) ''X'' = Some x \<and> status x = EXHAUSTED" by auto
  have m: "get_mentioned_theme_nodes ?S = []" by code_simp
  have bf: "\<forall>n\<in>set (take 1 ?vs). status n = PENDING \<and> is_ready_to_explore n (Some (theme_nodes ?S))
              \<longrightarrow> priority ?T < priority n" by code_simp
  have af: "\<forall>n\<in>set (drop 2 ?vs). status n = PENDING \<and> is_ready_to_explore n (Some (theme_nodes ?S))
              \<longrightarrow> priority ?T \<le> priority n" by code_simp
  have r: "get_next_candidate_theme None ?S = Some ?T"
    using dependent_theme_gate[of None ?S ?T "''X''" "take 1 ?vs" "drop 2 ?vs"]
      dec t2 t3 ex m bf af by blast
  have "\<exists>x. map_of (theme_nodes ?S) ''X'' = Some x \<and> status x = EXHAUSTED"
    using dependent_theme_gate[of None ?S ?T "''X''" "take 1 ?vs" "drop 2 ?vs"] r t2 t3 by blast
  with s t1 t2 t3 dec x m r show ?thesis unfolding Let_def by blast
qed

text \<open>
  Claim C2 as stated fails. After an event is added to \<open>T\<close>, the theme is MENTIONED and
  is returned although its prerequisite \<open>X\<close> is still PENDING. And with \<open>X\<close> and \<open>T\<close>
  exhausted, \<open>U\<close> depends on the exhausted \<open>X\<close>, nothing is MENTIONED and no ready
  PENDING theme has a lower priority number than \<open>U\<close>, yet the call returns \<open>Y\<close>, which
  has the same priority number and comes first in the theme map.
\<close>

theorem dependent_theme_gate_counterexample:
  "session dependent_mentioned = Some (example_state dependent_mentioned)
   \<and> map_option theme_id (get_next_candidate_theme None (example_state dependent_mentioned))
       = Some ''T''
   \<and> map_option depends_on (get_next_candidate_theme None (example_state dependent_mentioned))
       = Some [''X'']
   \<and> map_option status (map_of (theme_nodes (example_state dependent_mentioned)) ''X'')
       = Some PENDING
   \<and> session two_exhausted = Some (example_state two_exhausted)
   \<and> map (\<lambda>n. (theme_id n, status n, priority n, depends_on n))
          (map snd (theme_nodes (example_state two_exhausted)))
       = [(''X'', EXHAUSTED, 2, []), (''T'', EXHAUSTED, 1, [''X'']),
          (''Y'', PENDING, 2, []), (''U'', PENDING, 2, [''X''])]
   \<and> map_option theme_id (get_next_candidate_theme None (example_state two_exhausted))
       = Some ''Y''"
  by code_simp

subsection \<open>Dictionaries\<close>

lemma map_of_dict_set: "map_of (dict_set k v ps) = (map_of ps)(k \<mapsto> v)"
  by (induction ps) (auto simp: fun_eq_iff)

lemma map_of_dict_set_same: "map_of (dict_set k v ps) k = Some v"
  by (simp add: map_of_dict_set)

lemma map_of_dict_set_other: "k' \<noteq> k \<Longrightarrow> map_of (dict_set k v ps) k' = map_of ps k'"
  by (simp add: map_of_dict_set)



lemma keys_dict_set: "fst ` set (dict_set k v ps) = insert k (fst ` set ps)"
  by (induction ps) auto

subsection \<open>Adding an event\<close>

text \<open>
  Claim C3, amended. \<^verbatim>\<open>add_event_node(event, theme_id)\<close> with an unknown theme id
  returns false and leaves the manager, hence the size of the event collection,
  unchanged. With a known theme id it returns true and, for that theme: the event id is
  appended to the extracted events unless it is already there (so the count grows by one
  for a new id and stays for a repeated one); the exploration depth becomes
  \<open>min (depth + 1) 5\<close> (so it grows by one below the cap of 5); and the status becomes
  MENTIONED if it was PENDING and is unchanged otherwise.
\<close>

theorem add_event_node_postconditions:
  "(map_of (theme_nodes s) tid = None \<longrightarrow>
      add_event_node now event tid s = (s, False)
      \<and> length (event_nodes (fst (add_event_node now event tid s))) = length (event_nodes s))
   \<and> (map_of (theme_nodes s) tid = Some theme \<longrightarrow>
      snd (add_event_node now event tid s) = True
      \<and> (\<exists>theme'. map_of (theme_nodes (fst (add_event_node now event tid s))) tid = Some theme'
            \<and> extracted_events theme'
                = (if event_id event \<in> set (extracted_events theme) then extracted_events theme
                   else extracted_events theme @ [event_id event])
            \<and> exploration_depth theme' = min (exploration_depth theme + 1) 5
            \<and> status theme' = (if status theme = PENDING then MENTIONED else status theme)))"
  by (simp add: add_event_node_def Let_def map_of_dict_set_same mark_mentioned_def
      increment_depth_def add_extracted_event_def)

text \<open>
  The amended claim at the freshly constructed example manager: the unknown id \<open>T1\<close>,
  and a first event for the theme \<open>X\<close>.
\<close>

theorem add_event_node_postconditions_witness:
  "map_of (theme_nodes (example_state [])) ''T1'' = None
   \<and> add_event_node 1 (example_event ''e1'' ''T1'') ''T1'' (example_state [])
       = (example_state [], False)
   \<and> map_option (\<lambda>t. (extracted_events t, exploration_depth t, status t))
        (map_of (theme_nodes (example_state [])) ''X'') = Some ([], 0, PENDING)
   \<and> snd (add_event_node 1 (example_event ''e1'' ''X'') ''X'' (example_state [])) = True
   \<and> map_option (\<lambda>t. (extracted_events t, exploration_depth t, status t))
        (map_of (theme_nodes (fst (add_event_node 1 (example_event ''e1'' ''X'') ''X''
                                     (example_state [])))) ''X'')
       = Some ([''e1''], 1, MENTIONED)"
proof -
  let ?s = "example_state []"
  let ?e = "example_event ''e1'' ''X''"
  have u: "map_of (theme_nodes ?s) ''T1'' = None" by code_simp
  have k0: "map_option (\<lambda>t. (extracted_events t, exploration_depth t, status t))
        (map_of (theme_nodes ?s) ''X'') = Some ([], 0, PENDING)" by code_simp
  then obtain th where th: "map_of (theme_nodes ?s) ''X'' = Some th"
    and v: "extracted_events th = []" "exploration_depth th = 0" "status th = PENDING"
    by auto
  have id: "event_id ?e = ''e1''" by code_simp
  from add_event_node_postconditions[where s = ?s and tid = "''T1''" and now = 1
      and event = "example_event ''e1'' ''T1''"] u
  have a: "add_event_node 1 (example_event ''e1'' ''T1'') ''T1'' ?s = (?s, False)" by blast
  from add_event_node_postconditions[where s = ?s and tid = "''X''" and theme = th and now = 1
      and event = ?e] th v id
  have b: "snd (add_event_node 1 ?e ''X'' ?s) = True
     \<and> map_option (\<lambda>t. (extracted_events t, exploration_depth t, status t))
        (map_of (theme_nodes (fst (add_event_node 1 ?e ''X'' ?s))) ''X'')
       = Some ([''e1''], 1, MENTIONED)" by auto
  from u a k0 b show ?thesis by blast
qed

text \<open>
  Claim C3 as stated fails. Adding the event \<open>e1\<close> to \<open>X\<close> a second time succeeds and
  leaves the extracted-event count at 1; adding a sixth event to \<open>X\<close> succeeds and
  leaves the exploration depth at 5.
\<close>

theorem add_event_node_postconditions_counterexample:
  "session one_event = Some (example_state one_event)
   \<and> map_option ts_extracted_events_count (get_theme_status ''X'' (example_state one_event))
       = Some 1
   \<and> snd (add_event_node 2 (example_event ''e1'' ''X'') ''X'' (example_state one_event)) = True
   \<and> map_option ts_extracted_events_count
        (get_theme_status ''X''
           (fst (add_event_node 2 (example_event ''e1'' ''X'') ''X'' (example_state one_event))))
       = Some 1
   \<and> session five_events = Some (example_state five_events)
   \<and> map_option ts_exploration_depth (get_theme_status ''X'' (example_state five_events))
       = Some 5
   \<and> snd (add_event_node 6 (example_event ''e6'' ''X'') ''X'' (example_state five_events)) = True
   \<and> map_option ts_exploration_depth
        (get_theme_status ''X''
           (fst (add_event_node 6 (example_event ''e6'' ''X'') ''X'' (example_state five_events))))
       = Some 5"
  by code_simp

subsection \<open>Monotonic status\<close>

lemma lifecycle_position_le_2: "lifecycle_position st \<le> 2"
  by (cases st) simp_all

lemma add_event_node_forward:
  assumes "map_of (theme_nodes s) k = Some th"
  shows "\<exists>th'. map_of (theme_nodes (fst (add_event_node now event tid s))) k = Some th'
           \<and> lifecycle_position (status th) \<le> lifecycle_position (status th')"
proof (cases "map_of (theme_nodes s) tid")
  case None
  with assms show ?thesis by (simp add: add_event_node_def)
next
  case (Some theme)
  show ?thesis
  proof (cases "k = tid")
    case True
    with assms Some have "theme = th" by simp
    with Some True show ?thesis
      by (cases "status th")
         (simp_all add: add_event_node_def Let_def map_of_dict_set mark_mentioned_def
            increment_depth_def add_extracted_event_def)
  next
    case False
    with assms Some show ?thesis
      by (simp add: add_event_node_def Let_def map_of_dict_set)
  qed
qed

lemma update_event_depth_forward:
  "theme_nodes (fst (update_event_depth eid d s)) = theme_nodes s"
  by (simp add: update_event_depth_def Let_def split: option.splits)

lemma mark_theme_exhausted_forward:
  assumes "map_of (theme_nodes s) k = Some th"
  shows "\<exists>th'. map_of (theme_nodes (fst (mark_theme_exhausted now tid s))) k = Some th'
           \<and> lifecycle_position (status th) \<le> lifecycle_position (status th')"
proof (cases "map_of (theme_nodes s) tid")
  case None
  with assms show ?thesis by (simp add: mark_theme_exhausted_def)
next
  case (Some theme)
  with assms show ?thesis
    using lifecycle_position_le_2[of "status th"]
    by (cases "k = tid")
       (simp_all add: mark_theme_exhausted_def map_of_dict_set mark_exhausted_def)
qed

lemma exec_forward:
  assumes "\<not> restores c" and "map_of (theme_nodes s) k = Some th"
  shows "\<exists>th'. map_of (theme_nodes (exec c s)) k = Some th'
           \<and> lifecycle_position (status th) \<le> lifecycle_position (status th')"
proof (cases c)
  case (Add_event_node now event tid)
  with assms show ?thesis using add_event_node_forward[of s k th now event tid] by simp
next
  case (Update_event_depth eid d)
  with assms show ?thesis using update_event_depth_forward[of eid d s] by simp
next
  case (Mark_theme_exhausted now tid)
  with assms show ?thesis using mark_theme_exhausted_forward[of s k th now tid] by simp
next
  case (Save_checkpoint m a b d)
  with assms show ?thesis by simp
next
  case (Load_checkpoint u now gf tf ef)
  with assms show ?thesis by simp
next
  case (Reset now f)
  with assms show ?thesis by simp
qed

lemma run_forward:
  "\<forall>c\<in>set cs. \<not> restores c \<Longrightarrow> map_of (theme_nodes s) k = Some th
     \<Longrightarrow> \<exists>th'. map_of (theme_nodes (run cs s)) k = Some th'
           \<and> lifecycle_position (status th) \<le> lifecycle_position (status th')"
proof (induction cs arbitrary: s th)
  case Nil
  then show ?case by auto
next
  case (Cons c cs)
  from Cons.prems(1) have nr: "\<not> restores c" and rest: "\<forall>c\<in>set cs. \<not> restores c" by auto
  from exec_forward[OF nr Cons.prems(2)] obtain th1 where
    m1: "map_of (theme_nodes (exec c s)) k = Some th1"
    and le1: "lifecycle_position (status th) \<le> lifecycle_position (status th1)" by blast
  from Cons.IH[OF rest m1] obtain th' where
    "map_of (theme_nodes (run cs (exec c s))) k = Some th'"
    "lifecycle_position (status th1) \<le> lifecycle_position (status th')" by blast
  with le1 show ?case by (intro exI[of _ th']) simp
qed

text \<open>
  Claim C5, amended. \<^verbatim>\<open>mark_mentioned\<close> is a no-op on a MENTIONED or EXHAUSTED theme
  and never moves a theme backward; \<^verbatim>\<open>mark_exhausted\<close> always ends in EXHAUSTED; and
  along any sequence of calls of \<^verbatim>\<open>add_event_node\<close>,
  \<^verbatim>\<open>update_event_depth\<close>, \<^verbatim>\<open>mark_theme_exhausted\<close> and \<^verbatim>\<open>save_checkpoint\<close>,
  every theme stays in the manager and its status never moves backward in the order
  PENDING, MENTIONED, EXHAUSTED (so EXHAUSTED is terminal along such a sequence).
  \<^verbatim>\<open>load_checkpoint\<close> and \<^verbatim>\<open>reset\<close> are excluded: they overwrite the status.
\<close>

theorem status_monotonic:
  "(status n \<noteq> PENDING \<longrightarrow> mark_mentioned now n = n)
   \<and> lifecycle_position (status n) \<le> lifecycle_position (status (mark_mentioned now n))
   \<and> status (mark_exhausted now n) = EXHAUSTED
   \<and> ((\<forall>c\<in>set cs. \<not> restores c) \<and> run cs s = s' \<and> map_of (theme_nodes s) tid = Some th
        \<longrightarrow> (\<exists>th'. map_of (theme_nodes s') tid = Some th'
               \<and> lifecycle_position (status th) \<le> lifecycle_position (status th')))"
proof (intro conjI impI)
  show "lifecycle_position (status n) \<le> lifecycle_position (status (mark_mentioned now n))"
    by (cases "status n") (simp_all add: mark_mentioned_def)
next
  assume "(\<forall>c\<in>set cs. \<not> restores c) \<and> run cs s = s' \<and> map_of (theme_nodes s) tid = Some th"
  then show "\<exists>th'. map_of (theme_nodes s') tid = Some th'
               \<and> lifecycle_position (status th) \<le> lifecycle_position (status th')"
    using run_forward[of cs s tid th] by blast
qed (simp_all add: mark_mentioned_def mark_exhausted_def)

text \<open>
  The amended claim at the exhausted theme \<open>X\<close>, and along a sequence of five forward
  calls that takes \<open>X\<close> from PENDING to EXHAUSTED.
\<close>

theorem status_monotonic_witness:
  "(let n = map snd (theme_nodes (example_state prerequisite_exhausted)) ! 0
    in status n = EXHAUSTED \<and> mark_mentioned 9 n = n)
   \<and> map restores forward_calls = [False, False, False, False, False]
   \<and> run forward_calls (example_state []) = example_state forward_calls
   \<and> map_option status (map_of (theme_nodes (example_state [])) ''X'') = Some PENDING
   \<and> map_option status (map_of (theme_nodes (example_state forward_calls)) ''X'')
       = Some EXHAUSTED
   \<and> (\<exists>th'. map_of (theme_nodes (example_state forward_calls)) ''X'' = Some th'
         \<and> lifecycle_position PENDING \<le> lifecycle_position (status th'))"
proof -
  let ?n = "map snd (theme_nodes (example_state prerequisite_exhausted)) ! 0"
  have n: "status ?n = EXHAUSTED" by code_simp
  then have "status ?n \<noteq> PENDING" by simp
  with status_monotonic[where n = ?n and now = 9 and cs = "[]"]
  have a: "mark_mentioned 9 ?n = ?n" by blast
  have m: "map restores forward_calls = [False, False, False, False, False]" by code_simp
  have f: "\<forall>c\<in>set forward_calls. \<not> restores c"
  proof
    fix c assume "c \<in> set forward_calls"
    then have "restores c \<in> set (map restores forward_calls)" by simp
    with m show "\<not> restores c" by simp
  qed
  have r: "run forward_calls (example_state []) = example_state forward_calls"
    by code_simp
  have p: "map_option status (map_of (theme_nodes (example_state [])) ''X'') = Some PENDING"
    by code_simp
  have q: "map_option status (map_of (theme_nodes (example_state forward_calls)) ''X'')
       = Some EXHAUSTED" by code_simp
  from p obtain th where th: "map_of (theme_nodes (example_state [])) ''X'' = Some th"
    and st: "status th = PENDING" by auto
  from status_monotonic[where cs = forward_calls and s = "example_state []"
      and s' = "example_state forward_calls" and tid = "''X''" and th = th] f r th st
  have b: "\<exists>th'. map_of (theme_nodes (example_state forward_calls)) ''X'' = Some th'
         \<and> lifecycle_position PENDING \<le> lifecycle_position (status th')" by auto
  from n a m r p q b show ?thesis unfolding Let_def by blast
qed


text \<open>
  Claim C5 as stated fails. With \<open>X\<close> EXHAUSTED, loading the checkpoint that was saved
  from the fresh manager succeeds and puts \<open>X\<close> back to PENDING, and so does
  \<^verbatim>\<open>reset\<close>.
\<close>

theorem status_monotonic_counterexample:
  "session prerequisite_exhausted = Some (example_state prerequisite_exhausted)
   \<and> map_option status (map_of (theme_nodes (example_state prerequisite_exhausted)) ''X'')
       = Some EXHAUSTED
   \<and> session exhausted_then_loaded = Some (example_state exhausted_then_loaded)
   \<and> load_checkpoint (\<lambda>k. ''0123456789ab'') 3 (file_of (graph_state_json fresh_checkpoint))
        (file_of (themes_state_json fresh_checkpoint)) (file_of (events_json fresh_checkpoint))
        (example_state prerequisite_exhausted)
       = (example_state exhausted_then_loaded, True)
   \<and> map_option status (map_of (theme_nodes (example_state exhausted_then_loaded)) ''X'')
       = Some PENDING
   \<and> session exhausted_then_reset = Some (example_state exhausted_then_reset)
   \<and> map_option status (map_of (theme_nodes (example_state exhausted_then_reset)) ''X'')
       = Some PENDING"
  by code_simp

subsection \<open>The depth of an event\<close>

text \<open>
  \<^verbatim>\<open>increment_depth\<close> keeps a depth within 0 to 5; what \<^verbatim>\<open>update_event_depth\<close>
  stores, and when it fails.
\<close>

lemma event_increment_depth_range:
  "0 \<le> depth_level e \<Longrightarrow> depth_level e \<le> 5
     \<Longrightarrow> 0 \<le> depth_level (event_increment_depth e) \<and> depth_level (event_increment_depth e) \<le> 5"
  by (simp add: event_increment_depth_def)

lemma update_event_depth_stores_min:
  "(map_of (event_nodes s) eid = None \<longrightarrow> update_event_depth eid new_depth s = (s, False))
   \<and> (map_of (event_nodes s) eid = Some event \<longrightarrow>
        snd (update_event_depth eid new_depth s) = True
        \<and> map_option depth_level (map_of (event_nodes (fst (update_event_depth eid new_depth s))) eid)
            = Some (min new_depth 5))"
  by (simp add: update_event_depth_def Let_def map_of_dict_set)

text \<open>
  Claim C6 says that the depth of an event stays within 0 to 5 and that
  \<^verbatim>\<open>update_event_depth\<close> clamps into that range for every integer. The code clamps
  from above only: for the event \<open>e1\<close> of the example, at depth 0,
  \<^verbatim>\<open>update_event_depth("e1", -3)\<close> succeeds and stores the depth \<open>-3\<close>.
\<close>

theorem update_event_depth_negative:
  "session one_event = Some (example_state one_event)
   \<and> map_option depth_level (map_of (event_nodes (example_state one_event)) ''e1'') = Some 0
   \<and> snd (update_event_depth ''e1'' (- 3) (example_state one_event)) = True
   \<and> map_option depth_level
        (map_of (event_nodes (fst (update_event_depth ''e1'' (- 3) (example_state one_event))))
                ''e1'')
       = Some (- 3)"
  by code_simp

subsection \<open>Failures of the checkpoint operations\<close>

text \<open>
  Claim C8 says that \<^verbatim>\<open>save_checkpoint\<close> never lets an exception reach the caller.
  The \<^verbatim>\<open>mkdir\<close> call stands before the \<^verbatim>\<open>try\<close> block: an exception that it raises
  escapes, whatever the manager and the outcome of the writes, while with a successful
  \<^verbatim>\<open>mkdir\<close> the call always returns a flag.
\<close>

theorem save_checkpoint_mkdir_escapes:
  "save_checkpoint (Some OSError) None None None (example_state one_event) = Inl OSError
   \<and> save_checkpoint (Some e) write_graph write_themes write_events s = Inl e
   \<and> (\<exists>r. save_checkpoint None write_graph write_themes write_events s = Inr r)"
  by (simp add: save_checkpoint_def)

subsection \<open>Serialization of a theme\<close>







subsection \<open>Loading a catalog\<close>

lemma distinct_dict_set: "distinct (map fst ps) \<Longrightarrow> distinct (map fst (dict_set k v ps))"
  by (induction ps) (auto simp: keys_dict_set)

lemma insert_all_Nil: "insert_all acc [] = acc"
  by (simp add: insert_all_def)

lemma insert_all_Cons: "insert_all acc (n # ns) = insert_all (dict_set (theme_id n) n acc) ns"
  by (simp add: insert_all_def)

lemma insert_all_append: "insert_all acc (ns @ ms) = insert_all (insert_all acc ns) ms"
  by (simp add: insert_all_def)

lemma distinct_insert_all: "distinct (map fst acc) \<Longrightarrow> distinct (map fst (insert_all acc ns))"
  by (induction ns arbitrary: acc) (simp_all add: insert_all_Nil insert_all_Cons distinct_dict_set)

lemma keys_insert_all: "fst ` set (insert_all acc ns) = fst ` set acc \<union> theme_id ` set ns"
  by (induction ns arbitrary: acc) (auto simp: insert_all_Nil insert_all_Cons keys_dict_set)

lemma map_of_insert_all_other:
  "k \<notin> theme_id ` set ns \<Longrightarrow> map_of (insert_all acc ns) k = map_of acc k"
  by (induction ns arbitrary: acc) (auto simp: insert_all_Nil insert_all_Cons map_of_dict_set)

lemma map_of_insert_all_last:
  "theme_id n \<notin> theme_id ` set after
     \<Longrightarrow> map_of (insert_all acc (before @ n # after)) (theme_id n) = Some n"
  by (simp add: insert_all_append insert_all_Cons map_of_insert_all_other map_of_dict_set)

lemma length_insert_all:
  assumes "distinct (map fst acc)"
  shows "length (insert_all acc ns) = card (fst ` set acc \<union> theme_id ` set ns)"
proof -
  have "distinct (map fst (insert_all acc ns))" using assms by (rule distinct_insert_all)
  then have "card (set (map fst (insert_all acc ns))) = length (map fst (insert_all acc ns))"
    by (rule distinct_card)
  then show ?thesis by (simp add: keys_insert_all)
qed

lemma length_insert_all_empty: "length (insert_all [] ns) = card (theme_id ` set ns)"
  using length_insert_all[of "[]" ns] by simp

lemma length_insert_all_le: "length (insert_all [] ns) \<le> length ns"
  unfolding length_insert_all_empty by (metis card_image_le card_length le_trans List.finite_set)

lemma length_insert_all_less:
  "\<not> distinct (map theme_id ns) \<Longrightarrow> length (insert_all [] ns) < length ns"
proof -
  assume nd: "\<not> distinct (map theme_id ns)"
  have "card (set (map theme_id ns)) \<noteq> length (map theme_id ns)"
    using nd card_distinct by blast
  moreover have "card (set (map theme_id ns)) \<le> length (map theme_id ns)" by (rule card_length)
  ultimately show ?thesis by (simp add: length_insert_all_empty)
qed

lemma create_theme_node_id:
  "create_theme_node now d dv = Inr n \<Longrightarrow> def_theme_id d = Some (theme_id n)"
  by (auto simp: create_theme_node_def subscript_def split: option.splits)

lemma create_theme_node_succeeds:
  "def_theme_id d \<noteq> None \<Longrightarrow> def_title d \<noteq> None \<Longrightarrow> def_description d \<noteq> None
     \<Longrightarrow> \<exists>n. create_theme_node now d dv = Inr n"
  by (auto simp: create_theme_node_def subscript_def)

lemma load_themes_char:
  "load_themes now dv ds acc cnt = Inr (acc', cnt')
     \<Longrightarrow> \<exists>ns. list_all2 (\<lambda>p n. create_theme_node now (snd p) (fst p) = Inr n) (map (Pair dv) ds) ns
            \<and> acc' = insert_all acc ns \<and> cnt' = cnt + length ds"
proof (induction ds arbitrary: acc cnt)
  case Nil
  then show ?case by (simp add: insert_all_Nil)
next
  case (Cons d ds)
  from Cons.prems obtain n where n: "create_theme_node now d dv = Inr n"
    and rest: "load_themes now dv ds (dict_set (theme_id n) n acc) (cnt + 1) = Inr (acc', cnt')"
    by (auto split: sum.splits)
  from Cons.IH[OF rest] obtain ns where
    l: "list_all2 (\<lambda>p n. create_theme_node now (snd p) (fst p) = Inr n) (map (Pair dv) ds) ns"
    and a: "acc' = insert_all (dict_set (theme_id n) n acc) ns"
    and c: "cnt' = cnt + 1 + length ds" by blast
  show ?case
    using n l a c by (intro exI[of _ "n # ns"]) (simp add: insert_all_Cons)
qed

lemma load_themes_succeeds:
  "\<forall>d\<in>set ds. def_theme_id d \<noteq> None \<and> def_title d \<noteq> None \<and> def_description d \<noteq> None
     \<Longrightarrow> \<exists>r. load_themes now dv ds acc cnt = Inr r"
proof (induction ds arbitrary: acc cnt)
  case Nil
  then show ?case by simp
next
  case (Cons d ds)
  then obtain n where "create_theme_node now d dv = Inr n"
    using create_theme_node_succeeds[of d now dv] by auto
  with Cons show ?case by simp
qed

lemma load_domains_char:
  "load_domains now doms acc cnt lg = Inr (lg', themes)
     \<Longrightarrow> \<exists>ns. list_all2 (\<lambda>p n. create_theme_node now (snd p) (fst p) = Inr n) (resolvable_of doms) ns
            \<and> themes = insert_all acc ns
            \<and> lg' = lg @ unknown_domain_warnings doms
                      @ [Info_loaded (cnt + length (resolvable_of doms))]"
proof (induction doms arbitrary: acc cnt lg)
  case Nil
  then show ?case by (simp add: insert_all_Nil unknown_domain_warnings_def)
next
  case (Cons p doms)
  obtain k dd where p: "p = (k, dd)" by (cases p)
  show ?case
  proof (cases "Domain_of k")
    case (Inl e)
    with Cons.prems p have
      "load_domains now doms acc cnt (lg @ [Warning_unknown_domain k]) = Inr (lg', themes)"
      by simp
    from Cons.IH[OF this] obtain ns where
      "list_all2 (\<lambda>p n. create_theme_node now (snd p) (fst p) = Inr n) (resolvable_of doms) ns"
      "themes = insert_all acc ns"
      "lg' = (lg @ [Warning_unknown_domain k]) @ unknown_domain_warnings doms
                      @ [Info_loaded (cnt + length (resolvable_of doms))]" by blast
    with Inl p show ?thesis
      by (intro exI[of _ ns]) (simp add: unknown_domain_warnings_def)
  next
    case (Inr dv)
    with Cons.prems p obtain acc1 cnt1 where
      lt: "load_themes now dv (get_default dd []) acc cnt = Inr (acc1, cnt1)"
      and rest: "load_domains now doms acc1 cnt1 lg = Inr (lg', themes)"
      by (auto split: sum.splits)
    from load_themes_char[OF lt] obtain ns1 where
      l1: "list_all2 (\<lambda>p n. create_theme_node now (snd p) (fst p) = Inr n)
             (map (Pair dv) (get_default dd [])) ns1"
      and a1: "acc1 = insert_all acc ns1"
      and c1: "cnt1 = cnt + length (get_default dd [])" by blast
    from Cons.IH[OF rest] obtain ns2 where
      l2: "list_all2 (\<lambda>p n. create_theme_node now (snd p) (fst p) = Inr n) (resolvable_of doms) ns2"
      and a2: "themes = insert_all acc1 ns2"
      and g2: "lg' = lg @ unknown_domain_warnings doms
                      @ [Info_loaded (cnt1 + length (resolvable_of doms))]" by blast
    have "list_all2 (\<lambda>p n. create_theme_node now (snd p) (fst p) = Inr n)
            (map (Pair dv) (get_default dd []) @ resolvable_of doms) (ns1 @ ns2)"
      using l1 l2 by (rule list_all2_appendI)
    then show ?thesis
      using Inr p a1 a2 c1 g2
      by (intro exI[of _ "ns1 @ ns2"])
         (simp add: insert_all_append unknown_domain_warnings_def add.assoc)
  qed
qed

lemma load_domains_succeeds:
  "\<forall>p\<in>set (resolvable_of doms). def_theme_id (snd p) \<noteq> None \<and> def_title (snd p) \<noteq> None
        \<and> def_description (snd p) \<noteq> None
     \<Longrightarrow> \<exists>r. load_domains now doms acc cnt lg = Inr r"
proof (induction doms arbitrary: acc cnt lg)
  case Nil
  then show ?case by simp
next
  case (Cons p doms)
  obtain k dd where p: "p = (k, dd)" by (cases p)
  from Cons.prems p have rest:
    "\<forall>p\<in>set (resolvable_of doms). def_theme_id (snd p) \<noteq> None \<and> def_title (snd p) \<noteq> None
        \<and> def_description (snd p) \<noteq> None" by auto
  show ?case
  proof (cases "Domain_of k")
    case (Inl e)
    with p Cons.IH[OF rest] show ?thesis by simp
  next
    case (Inr dv)
    have "\<forall>d\<in>set (get_default dd []). def_theme_id d \<noteq> None \<and> def_title d \<noteq> None
         \<and> def_description d \<noteq> None"
    proof
      fix d assume "d \<in> set (get_default dd [])"
      then have "(dv, d) \<in> set (resolvable_of (p # doms))" using Inr p by simp
      with Cons.prems show "def_theme_id d \<noteq> None \<and> def_title d \<noteq> None
         \<and> def_description d \<noteq> None" by fastforce
    qed
    from load_themes_succeeds[OF this] obtain acc1 cnt1 where
      "load_themes now dv (get_default dd []) acc cnt = Inr (acc1, cnt1)" by fastforce
    with Inr p Cons.IH[OF rest, of acc1 cnt1 lg] show ?thesis by simp
  qed
qed

lemma created_ids:
  "list_all2 (\<lambda>p n. create_theme_node now (snd p) (fst p) = Inr n) ps ns
     \<Longrightarrow> map (def_theme_id \<circ> snd) ps = map (Some \<circ> theme_id) ns"
  by (induction ps ns rule: list_all2_induct) (auto dest: create_theme_node_id)

lemma created_id_sets:
  "list_all2 (\<lambda>p n. create_theme_node now (snd p) (fst p) = Inr n) ps ns
     \<Longrightarrow> (\<lambda>p. def_theme_id (snd p)) ` set ps = (\<lambda>n. Some (theme_id n)) ` set ns"
  by (induction ps ns rule: list_all2_induct) (auto dest: create_theme_node_id)

lemma distinct_map_Some: "distinct (map (Some \<circ> f) xs) = distinct (map f xs)"
  by (auto simp: distinct_map inj_on_def)

text \<open>
  Claim C10. When two theme definitions of the catalog share a \<^verbatim>\<open>theme_id\<close>, within
  one domain or across domains that resolve, \<^verbatim>\<open>load\<close> keeps the one processed last.
  Precisely: if every processed definition has the three required keys, \<^verbatim>\<open>load\<close>
  returns, duplicates or not; and whenever it returns, the mapping has distinct keys,
  which are exactly the ids of the processed definitions; under each id stands the
  node created from the last processed definition with that id; the log consists of
  the unknown-domain warnings and the final count, so nothing is logged for a
  collision (the count in that log line is the number of definitions processed); and
  the theme count \<^verbatim>\<open>get_theme_count\<close> is at most the number of processed definitions
  and strictly smaller when two of them share an id.
\<close>

theorem load_keeps_last_definition:
  "((\<forall>p\<in>set (resolvable_definitions c).
        def_theme_id (snd p) \<noteq> None \<and> def_title (snd p) \<noteq> None
        \<and> def_description (snd p) \<noteq> None)
      \<longrightarrow> (\<exists>r. load now (Parsed c) = Inr r))
   \<and> (load now (Parsed c) = Inr (logged, themes) \<longrightarrow>
        distinct (map fst themes)
        \<and> fst ` set themes
            = {tid. \<exists>p\<in>set (resolvable_definitions c). def_theme_id (snd p) = Some tid}
        \<and> (\<forall>before dv d after tid.
              resolvable_definitions c = before @ (dv, d) # after \<and> def_theme_id d = Some tid
              \<and> (\<forall>p\<in>set after. def_theme_id (snd p) \<noteq> Some tid)
              \<longrightarrow> (\<exists>n. create_theme_node now d dv = Inr n \<and> map_of themes tid = Some n))
        \<and> logged = unknown_domain_warnings (get_default c [])
                     @ [Info_loaded (length (resolvable_definitions c))]
        \<and> get_theme_count themes \<le> length (resolvable_definitions c)
        \<and> (\<not> distinct (map (def_theme_id \<circ> snd) (resolvable_definitions c))
              \<longrightarrow> get_theme_count themes < length (resolvable_definitions c)))"
proof (intro conjI impI)
  assume "\<forall>p\<in>set (resolvable_definitions c).
        def_theme_id (snd p) \<noteq> None \<and> def_title (snd p) \<noteq> None
        \<and> def_description (snd p) \<noteq> None"
  then show "\<exists>r. load now (Parsed c) = Inr r"
    unfolding resolvable_definitions_def load_def read_json_def
    using load_domains_succeeds[of "get_default c []" now "[]" 0 "[]"] by simp
next
  let ?defs = "resolvable_definitions c"
  let ?R = "\<lambda>p n. create_theme_node now (snd p) (fst p) = Inr n"
  assume "load now (Parsed c) = Inr (logged, themes)"
  then have "load_domains now (get_default c []) [] 0 [] = Inr (logged, themes)"
    by (simp add: load_def read_json_def)
  from load_domains_char[OF this] obtain ns where
    l: "list_all2 ?R ?defs ns" and t: "themes = insert_all [] ns"
    and g: "logged = unknown_domain_warnings (get_default c [])
                     @ [Info_loaded (length ?defs)]"
    by (auto simp: resolvable_definitions_def)
  have ids: "map (def_theme_id \<circ> snd) ?defs = map (Some \<circ> theme_id) ns"
    using l by (rule created_ids)
  have len: "length ns = length ?defs" using l by (simp add: list_all2_lengthD)
  show "distinct (map fst themes)" unfolding t by (simp add: distinct_insert_all)
  show "logged = unknown_domain_warnings (get_default c [])
                     @ [Info_loaded (length ?defs)]" by (rule g)
  show "get_theme_count themes \<le> length ?defs"
    unfolding t get_theme_count_def using length_insert_all_le[of ns] len by simp
  show "fst ` set themes = {tid. \<exists>p\<in>set ?defs. def_theme_id (snd p) = Some tid}"
  proof -
    have e: "(\<lambda>p. def_theme_id (snd p)) ` set ?defs = (\<lambda>n. Some (theme_id n)) ` set ns"
      using l by (rule created_id_sets)
    have "\<And>tid. tid \<in> theme_id ` set ns
                 \<longleftrightarrow> (\<exists>p\<in>set ?defs. def_theme_id (snd p) = Some tid)"
    proof
      fix tid assume "tid \<in> theme_id ` set ns"
      then have "Some tid \<in> (\<lambda>n. Some (theme_id n)) ` set ns" by auto
      with e have "Some tid \<in> (\<lambda>p. def_theme_id (snd p)) ` set ?defs" by simp
      then obtain p where "p \<in> set ?defs" "Some tid = def_theme_id (snd p)"
        by (rule imageE)
      then show "\<exists>p\<in>set ?defs. def_theme_id (snd p) = Some tid"
        by (intro bexI[of _ p]) simp_all
    next
      fix tid assume "\<exists>p\<in>set ?defs. def_theme_id (snd p) = Some tid"
      then have "Some tid \<in> (\<lambda>p. def_theme_id (snd p)) ` set ?defs" by force
      with e have "Some tid \<in> (\<lambda>n. Some (theme_id n)) ` set ns" by simp
      then show "tid \<in> theme_id ` set ns" by auto
    qed
    then show ?thesis unfolding t by (auto simp: keys_insert_all)
  qed
  show "\<forall>before dv d after tid.
              ?defs = before @ (dv, d) # after \<and> def_theme_id d = Some tid
              \<and> (\<forall>p\<in>set after. def_theme_id (snd p) \<noteq> Some tid)
              \<longrightarrow> (\<exists>n. create_theme_node now d dv = Inr n \<and> map_of themes tid = Some n)"
  proof (intro allI impI)
    fix before dv d after tid
    assume a: "?defs = before @ (dv, d) # after \<and> def_theme_id d = Some tid
              \<and> (\<forall>p\<in>set after. def_theme_id (snd p) \<noteq> Some tid)"
    with l have "list_all2 ?R (before @ (dv, d) # after) ns" by simp
    then obtain nb rest where ns1: "ns = nb @ rest" and "list_all2 ?R before nb"
      and r: "list_all2 ?R ((dv, d) # after) rest"
      by (auto simp: list_all2_append1)
    from r obtain n na where rest: "rest = n # na" and n: "create_theme_node now d dv = Inr n"
      and la: "list_all2 ?R after na"
      by (auto simp: list_all2_Cons1)
    from n a have tid: "theme_id n = tid" by (auto dest: create_theme_node_id)
    have "(\<lambda>p. def_theme_id (snd p)) ` set after = (\<lambda>n. Some (theme_id n)) ` set na"
      using la by (rule created_id_sets)
    with a have "tid \<notin> theme_id ` set na" by force
    with tid have "map_of (insert_all [] (nb @ n # na)) (theme_id n) = Some n"
      by (intro map_of_insert_all_last) simp
    with t ns1 rest tid n
    show "\<exists>n. create_theme_node now d dv = Inr n \<and> map_of themes tid = Some n" by auto
  qed
  show "get_theme_count themes < length ?defs"
    if "\<not> distinct (map (def_theme_id \<circ> snd) ?defs)"
  proof -
    from that ids have "\<not> distinct (map theme_id ns)" by (simp add: distinct_map_Some)
    then show ?thesis
      unfolding t get_theme_count_def using length_insert_all_less[of ns] len by simp
  qed
qed

text \<open>
  The claim at a catalog that defines \<open>A\<close> in two domains: the mapping has the two
  entries \<open>A\<close> and \<open>B\<close>, \<open>A\<close> from its second definition, the log has the warning
  for the unknown domain and the count 3, and the theme count 2 is smaller than the
  number 3 of processed definitions.
\<close>

theorem load_keeps_last_definition_witness:
  "load 0 (Parsed duplicate_catalog) = Inr loaded_duplicates
   \<and> map (\<lambda>p. def_theme_id (snd p)) (resolvable_definitions duplicate_catalog)
       = [Some ''A'', Some ''B'', Some ''A'']
   \<and> map (\<lambda>(k, n). (k, priority n, domain n)) (snd loaded_duplicates)
       = [(''A'', 7, Some KEY_SCENES), (''B'', 2, Some LIFE_CHAPTERS)]
   \<and> fst loaded_duplicates = [Warning_unknown_domain ''experimental'', Info_loaded 3]
   \<and> get_theme_count (snd loaded_duplicates) = 2
   \<and> (\<exists>r. load 0 (Parsed duplicate_catalog) = Inr r)
   \<and> distinct (map fst (snd loaded_duplicates))
   \<and> get_theme_count (snd loaded_duplicates) < length (resolvable_definitions duplicate_catalog)"
proof -
  have l: "load 0 (Parsed duplicate_catalog) = Inr loaded_duplicates" by code_simp
  then have l': "load 0 (Parsed duplicate_catalog) = Inr (fst loaded_duplicates, snd loaded_duplicates)"
    by simp
  have ids: "map (\<lambda>p. def_theme_id (snd p)) (resolvable_definitions duplicate_catalog)
       = [Some ''A'', Some ''B'', Some ''A'']" by code_simp
  then have nd: "\<not> distinct (map (def_theme_id \<circ> snd) (resolvable_definitions duplicate_catalog))"
    by (simp add: comp_def)
  have req: "\<forall>p\<in>set (resolvable_definitions duplicate_catalog).
        def_theme_id (snd p) \<noteq> None \<and> def_title (snd p) \<noteq> None
        \<and> def_description (snd p) \<noteq> None" by code_simp
  have th: "map (\<lambda>(k, n). (k, priority n, domain n)) (snd loaded_duplicates)
       = [(''A'', 7, Some KEY_SCENES), (''B'', 2, Some LIFE_CHAPTERS)]" by code_simp
  have lg: "fst loaded_duplicates = [Warning_unknown_domain ''experimental'', Info_loaded 3]"
    by code_simp
  have cnt: "get_theme_count (snd loaded_duplicates) = 2" by code_simp
  note t = load_keeps_last_definition[where c = duplicate_catalog and now = 0
      and logged = "fst loaded_duplicates" and themes = "snd loaded_duplicates"]
  from t req have a: "\<exists>r. load 0 (Parsed duplicate_catalog) = Inr r" by blast
  from t l' have b: "distinct (map fst (snd loaded_duplicates))" by blast
  from t l' nd have c: "get_theme_count (snd loaded_duplicates)
      < length (resolvable_definitions duplicate_catalog)" by blast
  from l ids th lg cnt a b c show ?thesis by blast
qed

subsection \<open>Constructing and resetting\<close>







subsection \<open>Extracted events and the event collection\<close>

















subsection \<open>Filing under the owner\<close>













subsection \<open>Ownership of the extracted events\<close>














subsection \<open>Restoring from a checkpoint\<close>




lemma restore_themes_skip:
  "map_of ths k = None \<Longrightarrow> restore_themes ths ((k, d) # rest) = restore_themes ths rest"
  by simp















end
